theory Spec2Isabelle
  imports Complex_Main
begin

section \<open>Values of the TypeScript sources\<close>

text \<open>
  The sources are \<^verbatim>\<open>src/vibrato-viewer/src/App.tsx\<close> (the application shell: upload,
  analysis request, mock data, playback and drag handlers) and the component
  \<^verbatim>\<open>ScrollingVibratoGraph\<close> (\<^verbatim>\<open>src/unnamed/part_004\<close>: the render effect and
  \<^verbatim>\<open>calculateCorrelation\<close>).

  A call completes by returning a value or by throwing an error. An array read past the
  end yields \<^verbatim>\<open>undefined\<close> (\<open>None\<close>).
\<close>

datatype js_error = JsError (err_name: string) (err_message: string)

datatype 'a completion = Return 'a | Throw js_error

subsection \<open>Numbers\<close>

text \<open>
  A JavaScript \<^verbatim>\<open>number\<close> is an IEEE 754 binary64 value: a finite double, given here
  by the real it denotes, one of the two infinities, or \<^verbatim>\<open>NaN\<close>. The series of an
  analysis, the sample times and the playback positions are finite doubles and are
  written as reals; comparisons of finite doubles are the comparisons of these reals.

  The arithmetic of \<^verbatim>\<open>calculateCorrelation\<close> is that of binary64: every operation
  yields the double nearest to the exact result, ties going to the even significand
  (\<open>fl\<close>). A double has a significand of 53 bits: between \<^verbatim>\<open>2^e\<close> and \<^verbatim>\<open>2^(e+1)\<close>
  the doubles are the multiples of \<^verbatim>\<open>2^(e-52)\<close>, below \<^verbatim>\<open>2^-1022\<close> those of
  \<^verbatim>\<open>2^-1074\<close>, and a result that rounds to \<^verbatim>\<open>2^1024\<close> or beyond is an infinity. The
  sign of a zero is not kept: \<^verbatim>\<open>===\<close> does not tell the two zeros apart, and the only
  divisor of that function that can be zero, a square root, is \<^verbatim>\<open>+0\<close>.
\<close>

datatype double = Fin real | PosInfinity | NegInfinity | NaN

definition round_half_even :: "real \<Rightarrow> int" where
  "round_half_even m =
     (let f = \<lfloor>m\<rfloor>; d = m - of_int f
      in if d < 1 / 2 then f else if d > 1 / 2 then f + 1
         else if even f then f else f + 1)"

definition fl :: "real \<Rightarrow> double" where
  "fl x =
     (if x = 0 then Fin 0
      else
        let e = max \<lfloor>log 2 \<bar>x\<bar>\<rfloor> (- 1022);
            q = 2 powi (e - 52);
            r = of_int (round_half_even (x / q)) * q
        in if \<bar>r\<bar> \<ge> 2 ^ 1024 then (if x > 0 then PosInfinity else NegInfinity)
           else Fin r)"

definition infinity_of :: "bool \<Rightarrow> double" where
  "infinity_of positive = (if positive then PosInfinity else NegInfinity)"

fun fneg :: "double \<Rightarrow> double" where
  "fneg (Fin a) = Fin (- a)"
| "fneg PosInfinity = NegInfinity"
| "fneg NegInfinity = PosInfinity"
| "fneg NaN = NaN"

text \<open>
  The operations \<^verbatim>\<open>+\<close>, \<^verbatim>\<open>-\<close>, \<^verbatim>\<open>*\<close>, \<^verbatim>\<open>/\<close> and \<^verbatim>\<open>Math.sqrt\<close>. Where equations
  overlap the first one applies.
\<close>

fun fadd :: "double \<Rightarrow> double \<Rightarrow> double" where
  "fadd (Fin a) (Fin b) = fl (a + b)"
| "fadd NaN b = NaN"
| "fadd a NaN = NaN"
| "fadd PosInfinity NegInfinity = NaN"
| "fadd NegInfinity PosInfinity = NaN"
| "fadd PosInfinity b = PosInfinity"
| "fadd NegInfinity b = NegInfinity"
| "fadd (Fin a) b = b"

definition fsub :: "double \<Rightarrow> double \<Rightarrow> double" where
  "fsub a b = fadd a (fneg b)"

fun fmul :: "double \<Rightarrow> double \<Rightarrow> double" where
  "fmul (Fin a) (Fin b) = fl (a * b)"
| "fmul NaN b = NaN"
| "fmul a NaN = NaN"
| "fmul (Fin a) PosInfinity = (if a = 0 then NaN else infinity_of (a > 0))"
| "fmul (Fin a) NegInfinity = (if a = 0 then NaN else infinity_of (a < 0))"
| "fmul PosInfinity (Fin b) = (if b = 0 then NaN else infinity_of (b > 0))"
| "fmul NegInfinity (Fin b) = (if b = 0 then NaN else infinity_of (b < 0))"
| "fmul PosInfinity PosInfinity = PosInfinity"
| "fmul NegInfinity NegInfinity = PosInfinity"
| "fmul PosInfinity NegInfinity = NegInfinity"
| "fmul NegInfinity PosInfinity = NegInfinity"

fun fdiv :: "double \<Rightarrow> double \<Rightarrow> double" where
  "fdiv (Fin a) (Fin b) =
     (if b = 0 then (if a = 0 then NaN else infinity_of (a > 0)) else fl (a / b))"
| "fdiv NaN b = NaN"
| "fdiv a NaN = NaN"
| "fdiv (Fin a) b = Fin 0"
| "fdiv PosInfinity (Fin b) = infinity_of (b \<ge> 0)"
| "fdiv NegInfinity (Fin b) = infinity_of (b < 0)"
| "fdiv a b = NaN"

fun fsqrt :: "double \<Rightarrow> double" where
  "fsqrt (Fin a) = (if a < 0 then NaN else fl (sqrt a))"
| "fsqrt PosInfinity = PosInfinity"
| "fsqrt NegInfinity = NaN"
| "fsqrt NaN = NaN"

section \<open>The correlation estimator\<close>

text \<open>
  \<^verbatim>\<open>calculateCorrelation\<close>, lines 433 to 454 of the component. The accumulating
  \<^verbatim>\<open>for\<close> loop over \<^verbatim>\<open>i = 0 .. n-1\<close> is a fold over the indices; inside it both arrays
  are read below their common length \<open>n\<close>. The length of an array is an integer below
  \<^verbatim>\<open>2^32\<close>, a double. The test \<^verbatim>\<open>=== 0\<close> holds of a zero and of nothing else.
\<close>

definition corr_loop ::
  "double list \<Rightarrow> double list \<Rightarrow> double \<Rightarrow> double \<Rightarrow> nat \<Rightarrow> double \<times> double \<times> double" where
  "corr_loop x y meanX meanY n =
     fold (\<lambda>i (numerator, denomX, denomY).
             let dx = fsub (x ! i) meanX; dy = fsub (y ! i) meanY
             in (fadd numerator (fmul dx dy), fadd denomX (fmul dx dx),
                 fadd denomY (fmul dy dy)))
          [0..<n] (Fin 0, Fin 0, Fin 0)"

definition calculateCorrelation :: "double list \<Rightarrow> double list \<Rightarrow> double completion" where
  "calculateCorrelation x y =
     (if length x \<noteq> length y \<or> length x = 0 then Return (Fin 0)
      else
        let n = length x;
            meanX = fdiv (foldl (\<lambda>a b. fadd a b) (Fin 0) x) (Fin (real n));
            meanY = fdiv (foldl (\<lambda>a b. fadd a b) (Fin 0) y) (Fin (real n))
        in case corr_loop x y meanX meanY n of
             (numerator, denomX, denomY) \<Rightarrow>
               if denomX = Fin 0 \<or> denomY = Fin 0 then Return (Fin 0)
               else Return (fdiv numerator (fsqrt (fmul denomX denomY))))"


section \<open>The analysis result and the mock data generator\<close>

text \<open>
  \<^verbatim>\<open>interface AnalysisData\<close> of both files. The field \<^verbatim>\<open>times\<close> is named
  \<open>times_list\<close> here, since \<open>times\<close> is the multiplication of HOL.
\<close>

record AnalysisData =
  times_list :: "real list"
  pitchDeviation :: "real list"
  amplitudeDeviation :: "real list"
  amplitude :: "real list"
  peaks :: "nat list"
  troughs :: "nat list"
  oscillations :: nat

text \<open>
  An array read \<^verbatim>\<open>a[k]\<close>: \<^verbatim>\<open>undefined\<close> (\<open>None\<close>) outside the array. A relational
  comparison with \<^verbatim>\<open>undefined\<close> converts it to \<^verbatim>\<open>NaN\<close> and is false, and
  \<^verbatim>\<open>Math.abs(undefined)\<close> is \<^verbatim>\<open>NaN\<close>.
\<close>

definition js_index :: "real list \<Rightarrow> int \<Rightarrow> real option" where
  "js_index a k = (if 0 \<le> k \<and> k < int (length a) then Some (a ! nat k) else None)"

definition js_gt :: "real option \<Rightarrow> real option \<Rightarrow> bool" where
  "js_gt a b = (case (a, b) of (Some u, Some v) \<Rightarrow> u > v | _ \<Rightarrow> False)"

definition js_lt :: "real option \<Rightarrow> real option \<Rightarrow> bool" where
  "js_lt a b = (case (a, b) of (Some u, Some v) \<Rightarrow> u < v | _ \<Rightarrow> False)"

definition js_abs :: "real option \<Rightarrow> real option" where
  "js_abs a = map_option abs a"

text \<open>
  The values one iteration of the loop of \<^verbatim>\<open>generateMockData\<close> computes for frame \<open>i\<close>
  before it pushes them (lines 101 to 117 of \<^verbatim>\<open>App.tsx\<close>).
\<close>

record mock_frame =
  f_time :: real
  f_pitch :: real
  f_ampDeviation :: real
  f_amplitude :: real

definition mockFrame :: "nat \<Rightarrow> mock_frame" where
  "mockFrame i =
     (let sampleRate = 44100; hopLength = 512;
          time = (real i * hopLength) / sampleRate;
          vibratoRate = 5.5 + sin (time * 0.5) * 0.5;
          vibratoWidth = 30 + sin (time * 0.3) * 20;
          pitch = vibratoWidth * sin (2 * pi * vibratoRate * time);
          ampDeviation = (pitch / 30) * 5 + sin (2 * pi * vibratoRate * time + 0.3) * 3;
          baseAmp = 0.5 + sin (time * 0.7) * 0.3;
          pitchCorrelation = (pitch / 100) * 0.2
      in \<lparr>f_time = time, f_pitch = pitch, f_ampDeviation = ampDeviation,
          f_amplitude = max 0 (baseAmp + pitchCorrelation)\<rparr>)"

text \<open>
  One iteration: the four pushes, then the detection of lines 119 to 131, which reads
  \<^verbatim>\<open>pitchDeviation[i-1]\<close>, \<^verbatim>\<open>pitchDeviation[i]\<close> and \<^verbatim>\<open>pitchDeviation[i+1]\<close> of the
  array as it is at that moment. The frame values are a parameter, so that the scan
  can be stated for every pitch-deviation sequence.
\<close>

definition mock_body :: "(nat \<Rightarrow> mock_frame) \<Rightarrow> nat \<Rightarrow> nat \<Rightarrow> AnalysisData \<Rightarrow> AnalysisData" where
  "mock_body frame numFrames i d =
     (let d1 = d\<lparr>times_list := times_list d @ [f_time (frame i)],
                 pitchDeviation := pitchDeviation d @ [f_pitch (frame i)],
                 amplitudeDeviation := amplitudeDeviation d @ [f_ampDeviation (frame i)],
                 amplitude := amplitude d @ [f_amplitude (frame i)]\<rparr>;
          pd = pitchDeviation d1;
          k = int i
      in if k > 0 \<and> k < int numFrames - 1 then
           let d2 = (if js_gt (js_index pd k) (js_index pd (k - 1)) \<and>
                        js_gt (js_index pd k) (js_index pd (k + 1))
                     then (if js_gt (js_abs (js_index pd k)) (Some 10)
                           then d1\<lparr>peaks := peaks d1 @ [i]\<rparr> else d1)
                     else d1)
           in (if js_lt (js_index pd k) (js_index pd (k - 1)) \<and>
                  js_lt (js_index pd k) (js_index pd (k + 1))
               then (if js_gt (js_abs (js_index pd k)) (Some 10)
                     then d2\<lparr>troughs := troughs d2 @ [i]\<rparr> else d2)
               else d2)
         else d1)"

definition empty_data :: AnalysisData where
  "empty_data = \<lparr>times_list = [], pitchDeviation = [], amplitudeDeviation = [],
                  amplitude = [], peaks = [], troughs = [], oscillations = 0\<rparr>"

definition mock_loop :: "(nat \<Rightarrow> mock_frame) \<Rightarrow> nat \<Rightarrow> nat \<Rightarrow> AnalysisData" where
  "mock_loop frame numFrames m = fold (mock_body frame numFrames) [0..<m] empty_data"

definition generateMockData_with :: "(nat \<Rightarrow> mock_frame) \<Rightarrow> nat \<Rightarrow> AnalysisData" where
  "generateMockData_with frame numFrames =
     (let d = mock_loop frame numFrames numFrames
      in d\<lparr>oscillations := length (peaks d)\<rparr>)"

definition generateMockData :: AnalysisData where
  "generateMockData = generateMockData_with mockFrame 2000"

text \<open>The loop run on a given list of pitch samples, one per frame.\<close>

definition frames_of_pitch :: "real list \<Rightarrow> nat \<Rightarrow> mock_frame" where
  "frames_of_pitch ps i =
     \<lparr>f_time = (real i * 512) / 44100, f_pitch = ps ! i, f_ampDeviation = 0,
      f_amplitude = 0\<rparr>"

text \<open>The rule of the specification for a peak and for a trough at index \<open>i\<close>.\<close>

definition spec_peak :: "real list \<Rightarrow> real \<Rightarrow> nat \<Rightarrow> bool" where
  "spec_peak pd minMagnitude i =
     (1 \<le> i \<and> i + 2 \<le> length pd \<and> pd ! i > pd ! (i - 1) \<and> pd ! i > pd ! (i + 1) \<and>
      \<bar>pd ! i\<bar> \<ge> minMagnitude)"

definition spec_trough :: "real list \<Rightarrow> real \<Rightarrow> nat \<Rightarrow> bool" where
  "spec_trough pd minMagnitude i =
     (1 \<le> i \<and> i + 2 \<le> length pd \<and> pd ! i < pd ! (i - 1) \<and> pd ! i < pd ! (i + 1) \<and>
      \<bar>pd ! i\<bar> \<ge> minMagnitude)"


section \<open>The windowed renderer\<close>

text \<open>
  \<^verbatim>\<open>Array.prototype.findIndex\<close>: the index of the first element that satisfies the
  predicate, \<open>-1\<close> when there is none.
\<close>

fun findIndex_from :: "('a \<Rightarrow> bool) \<Rightarrow> 'a list \<Rightarrow> int \<Rightarrow> int" where
  "findIndex_from p [] k = - 1"
| "findIndex_from p (v # vs) k = (if p v then k else findIndex_from p vs (k + 1))"

definition findIndex :: "('a \<Rightarrow> bool) \<Rightarrow> 'a list \<Rightarrow> int" where
  "findIndex p a = findIndex_from p a 0"


text \<open>
  Lines 76 to 82 of the component: the visible time range and the indices of the
  window, computed on every run of the rendering effect from the sample times, from
  \<^verbatim>\<open>currentTime\<close> (\<open>now\<close>) and from \<^verbatim>\<open>windowSize\<close> (\<open>width\<close>).
\<close>

record VisibleWindow =
  timeStart :: real
  timeEnd :: real
  startIdx :: int
  endIdx :: int

definition visibleWindow :: "real list \<Rightarrow> real \<Rightarrow> real \<Rightarrow> VisibleWindow" where
  "visibleWindow ts now width =
     (let timeEnd = now;
          timeStart = max 0 (now - width);
          startIdx = findIndex (\<lambda>t. t \<ge> timeStart) ts;
          endIdx = findIndex (\<lambda>t. t \<ge> timeEnd) ts
      in \<lparr>timeStart = timeStart, timeEnd = timeEnd, startIdx = startIdx, endIdx = endIdx\<rparr>)"





text \<open>
  The main rendering effect (lines 60 to 126). \<open>canvasesMounted\<close> says that the three
  canvas refs are set, \<open>contextsAvailable\<close> that \<^verbatim>\<open>getContext('2d')\<close> gave three
  contexts; \<open>canvasWidth\<close> is \<^verbatim>\<open>pitchCanvas.width\<close>.
\<close>

record render_props =
  canvasesMounted :: bool
  contextsAvailable :: bool
  canvasWidth :: real
  analysisData :: "AnalysisData option"
  currentTime :: real
  windowSize :: real



section \<open>The application state: analysis request, playback and drag\<close>

text \<open>
  The state of \<^verbatim>\<open>App\<close>: its \<^verbatim>\<open>useState\<close> cells, what its refs point to
  (\<open>audioMounted\<close>: \<^verbatim>\<open>audioRef.current\<close> is set; \<open>audioCurrentTime\<close> and
  \<open>audioDuration\<close>: the \<^verbatim>\<open>currentTime\<close> and the \<^verbatim>\<open>duration\<close> of that audio element,
  the latter \<open>0\<close> while no media is loaded; \<open>progressBarMounted\<close>:
  \<^verbatim>\<open>progressBarRef.current\<close> is set), and the messages shown with \<^verbatim>\<open>alert\<close>.
  Every handler runs to completion on the state of the render it belongs to: the
  effects are subscribed again whenever \<^verbatim>\<open>isPlaying\<close>, \<^verbatim>\<open>isDragging\<close> or
  \<^verbatim>\<open>duration\<close> change.
\<close>

record app_state =
  analysisData :: "AnalysisData option"
  isPlaying :: bool
  currentTime :: real
  duration :: real
  isAnalyzing :: bool
  isDragging :: bool
  audioMounted :: bool
  audioCurrentTime :: real
  audioDuration :: real
  progressBarMounted :: bool
  alerts :: "string list"

definition initial_state :: app_state where
  "initial_state =
     \<lparr>analysisData = None, isPlaying = False, currentTime = 0, duration = 0,
      isAnalyzing = False, isDragging = False, audioMounted = False,
      audioCurrentTime = 0, audioDuration = 0, progressBarMounted = False,
      alerts = []\<rparr>"

subsection \<open>analyzeAudio\<close>

text \<open>
  What the request of \<^verbatim>\<open>analyzeAudio\<close> (lines 50 to 85) comes back with: \<^verbatim>\<open>fetch\<close> or
  \<^verbatim>\<open>response.json()\<close> rejects with an error; or the response is not \<^verbatim>\<open>ok\<close> and its
  body carries \<^verbatim>\<open>detail\<close> or not; or the response is \<^verbatim>\<open>ok\<close> and its body is the
  analysis.
\<close>

datatype backend_reply =
    Rejected js_error
  | NotOk "string option"
  | Ok AnalysisData

text \<open>\<^verbatim>\<open>Error.prototype.toString\<close>, used by the template string of the alert.\<close>

definition error_toString :: "js_error \<Rightarrow> string" where
  "error_toString e =
     (if err_name e = [] then err_message e
      else if err_message e = [] then err_name e
      else err_name e @ '': '' @ err_message e)"

text \<open>The body of the \<^verbatim>\<open>try\<close> block: it sets the analysis, or throws.\<close>

definition analyze_try :: "backend_reply \<Rightarrow> app_state \<Rightarrow> app_state completion" where
  "analyze_try reply s =
     (case reply of
        Rejected e \<Rightarrow> Throw e
      | NotOk detail \<Rightarrow>
          Throw (JsError ''Error''
            (case detail of
               None \<Rightarrow> ''Analysis failed''
             | Some d \<Rightarrow> if d = [] then ''Analysis failed'' else d))
      | Ok data \<Rightarrow> Return (s\<lparr>analysisData := Some data\<rparr>))"

definition analyzeAudio_begin :: "app_state \<Rightarrow> app_state" where
  "analyzeAudio_begin s = s\<lparr>isAnalyzing := True\<rparr>"

definition analyzeAudio_settle :: "backend_reply \<Rightarrow> app_state \<Rightarrow> app_state" where
  "analyzeAudio_settle reply s =
     (let s1 =
        (case analyze_try reply s of
           Return s' \<Rightarrow> s'
         | Throw error \<Rightarrow>
             let s2 = s\<lparr>alerts := alerts s @
                        [''Failed to analyze audio: '' @ error_toString error @
                         ''. Make sure the backend is running (uvicorn backend:app --reload)'']\<rparr>;
                 mockData = generateMockData
             in s2\<lparr>analysisData := Some mockData\<rparr>)
      in s1\<lparr>isAnalyzing := False\<rparr>)"

definition analyzeAudio :: "backend_reply \<Rightarrow> app_state \<Rightarrow> app_state" where
  "analyzeAudio reply s = analyzeAudio_settle reply (analyzeAudio_begin s)"

subsection \<open>Seeking, dragging and the playback clock\<close>

definition seekTo :: "real \<Rightarrow> app_state \<Rightarrow> app_state" where
  "seekTo time s =
     (if audioMounted s \<and> duration s > 0 then
        let clampedTime = max 0 (min time (duration s))
        in s\<lparr>audioCurrentTime := clampedTime, currentTime := clampedTime\<rparr>
      else s)"

text \<open>
  The drag handlers of lines 172 to 199. \<open>ratio\<close> is the quotient
  \<^verbatim>\<open>(e.clientX - rect.left) / rect.width\<close> of the mouse event and the progress bar.
\<close>

definition handleProgressDragStart :: "real \<Rightarrow> app_state \<Rightarrow> app_state" where
  "handleProgressDragStart ratio s =
     (let s1 = s\<lparr>isDragging := True\<rparr>
      in if progressBarMounted s1 \<and> duration s1 > 0 then
           let percentage = ratio; time = percentage * duration s1
           in seekTo time s1
         else s1)"

definition handleProgressDrag :: "real \<Rightarrow> app_state \<Rightarrow> app_state" where
  "handleProgressDrag ratio s =
     (if progressBarMounted s \<and> duration s > 0 then
        let percentage = max 0 (min 1 ratio); time = percentage * duration s
        in seekTo time s
      else s)"

definition handleProgressDragEnd :: "app_state \<Rightarrow> app_state" where
  "handleProgressDragEnd s = s\<lparr>isDragging := False\<rparr>"

text \<open>
  The clock-driven writers of \<^verbatim>\<open>currentTime\<close>: \<^verbatim>\<open>updateTime\<close>, the animation-frame
  callback of lines 214 to 231; \<^verbatim>\<open>handleTimeUpdate\<close>, the listener of the audio
  element's \<^verbatim>\<open>timeupdate\<close> event (lines 257 to 262); and \<^verbatim>\<open>handleEnded\<close>, the
  listener of its \<^verbatim>\<open>ended\<close> event (lines 252 to 255), which writes
  \<^verbatim>\<open>audio.duration || 0\<close>.
\<close>

definition updateTime :: "app_state \<Rightarrow> app_state" where
  "updateTime s =
     (if audioMounted s \<and> isPlaying s \<and> \<not> isDragging s
      then s\<lparr>currentTime := audioCurrentTime s\<rparr> else s)"

definition handleTimeUpdate :: "app_state \<Rightarrow> app_state" where
  "handleTimeUpdate s =
     (if \<not> isPlaying s \<and> \<not> isDragging s
      then s\<lparr>currentTime := audioCurrentTime s\<rparr> else s)"

definition handleEnded :: "app_state \<Rightarrow> app_state" where
  "handleEnded s =
     s\<lparr>isPlaying := False,
       currentTime := (if audioDuration s = 0 then 0 else audioDuration s)\<rparr>"

text \<open>
  The audio element belongs to the browser, and no handler pauses it when a drag starts.
  While the application is playing, its clock moves forward by the time \<open>dt\<close> that has
  passed; when the clock reaches the duration of the media, the element stops there and
  fires \<^verbatim>\<open>ended\<close>.
\<close>

definition audioClock :: "real \<Rightarrow> app_state \<Rightarrow> app_state" where
  "audioClock dt s =
     (if audioMounted s \<and> isPlaying s then
        let t = audioCurrentTime s + dt
        in if t \<ge> audioDuration s
           then handleEnded (s\<lparr>audioCurrentTime := audioDuration s\<rparr>)
           else s\<lparr>audioCurrentTime := t\<rparr>
      else s)"

text \<open>Playback: for each elapsed time, the clock moves and the next frame runs \<^verbatim>\<open>updateTime\<close>.\<close>

fun playback :: "real list \<Rightarrow> app_state \<Rightarrow> app_state" where
  "playback [] s = s"
| "playback (dt # dts) s = playback dts (updateTime (audioClock dt s))"


section \<open>Notions used in the statements and proofs\<close>

text \<open>
  What \<^verbatim>\<open>calculateCorrelation\<close> computes on the way: the mean of a slice (lines 437 and
  438), the sum of the squared deviations of a slice from its computed mean
  (\<^verbatim>\<open>denomX\<close>, \<^verbatim>\<open>denomY\<close>) and the sum of the products of the deviations of two slices
  (\<^verbatim>\<open>numerator\<close>).
\<close>

definition computedMean :: "double list \<Rightarrow> double" where
  "computedMean x = fdiv (foldl (\<lambda>a b. fadd a b) (Fin 0) x) (Fin (real (length x)))"

definition squaredDeviations :: "double list \<Rightarrow> double" where
  "squaredDeviations x =
     foldl (\<lambda>acc v. fadd acc (fmul (fsub v (computedMean x)) (fsub v (computedMean x))))
       (Fin 0) x"

definition crossDeviations :: "double list \<Rightarrow> double list \<Rightarrow> double" where
  "crossDeviations x y =
     foldl (\<lambda>acc (u, v). fadd acc (fmul (fsub u (computedMean x)) (fsub v (computedMean y))))
       (Fin 0) (zip x y)"

text \<open>A slice all of whose entries are finite and equal to the mean computed for it.\<close>

definition at_computed_mean :: "double list \<Rightarrow> bool" where
  "at_computed_mean x = (\<exists>m. computedMean x = Fin m \<and> (\<forall>a \<in> set x. a = Fin m))"

text \<open>
  The invariant of the scan after \<open>m\<close> of \<open>n\<close> iterations: both index lists are strictly
  increasing, hold interior indices below \<open>m\<close> only, and share no index.
\<close>

definition scan_inv :: "nat \<Rightarrow> nat \<Rightarrow> AnalysisData \<Rightarrow> bool" where
  "scan_inv n m d =
     (sorted_wrt (<) (peaks d) \<and> sorted_wrt (<) (troughs d) \<and>
      (\<forall>p \<in> set (peaks d) \<union> set (troughs d). 0 < p \<and> p < m \<and> Suc p < n) \<and>
      set (peaks d) \<inter> set (troughs d) = {})"



text \<open>
  A state of the application during playback: an audio of \<open>20\<close> seconds, playing, at
  second \<open>3\<close>.
\<close>

definition playing_state :: app_state where
  "playing_state =
     initial_state\<lparr>audioMounted := True, progressBarMounted := True, duration := 20,
       audioDuration := 20, isPlaying := True, currentTime := 3, audioCurrentTime := 3\<rparr>"


section \<open>Properties of the rounding to binary64\<close>

lemma two_powr_int: "(2::real) powr real_of_int k = 2 powi k"
  by (rule powr_real_of_int') simp_all

lemma two_powi_less_iff: "(2::real) powi a < 2 powi b \<longleftrightarrow> a < b"
proof
  assume l: "(2::real) powi a < 2 powi b"
  show "a < b"
  proof (rule ccontr)
    assume "\<not> a < b"
    then have "(2::real) powi b \<le> 2 powi a" by (intro power_int_increasing) simp_all
    with l show False by simp
  qed
next
  assume "a < b"
  then show "(2::real) powi a < 2 powi b" by (intro power_int_strict_increasing) simp_all
qed

lemma two_powi_le_iff: "(2::real) powi a \<le> 2 powi b \<longleftrightarrow> a \<le> b"
  using two_powi_less_iff [of b a] by (simp add: not_less [symmetric])

lemma floor_log2_eqI:
  assumes "2 powi e \<le> x" and "x < 2 powi (e + 1)"
  shows "\<lfloor>log 2 x\<rfloor> = e"
proof -
  have "(0::real) < 2 powi e" by simp
  with assms(1) have x: "0 < x" by linarith
  have "2 powr real_of_int e \<le> x \<and> x < 2 powr real_of_int (e + 1)"
    using assms unfolding two_powr_int by simp
  with floor_log_eq_powr_iff [of x 2 e] x show ?thesis by simp
qed

lemma floor_log2_less:
  assumes "0 < x" and "x < 2 powi e"
  shows "\<lfloor>log 2 x\<rfloor> < e"
proof -
  have "log 2 x < log 2 (2 powr real_of_int e)"
    using assms unfolding two_powr_int by simp
  then have "log 2 x < real_of_int e" by simp
  then show ?thesis by linarith
qed

lemma floor_log2_bounds:
  assumes "0 < x"
  shows "2 powi \<lfloor>log 2 x\<rfloor> \<le> x" and "x < 2 powi (\<lfloor>log 2 x\<rfloor> + 1)"
  using floor_log_eq_powr_iff [of x 2 "\<lfloor>log 2 x\<rfloor>"] assms
  unfolding two_powr_int by simp_all

lemma floor_log2_ge:
  assumes "2 powi e \<le> x"
  shows "e \<le> \<lfloor>log 2 x\<rfloor>"
proof -
  have "(0::real) < 2 powi e" by simp
  with assms have x: "0 < x" by linarith
  have "log 2 (2 powr real_of_int e) \<le> log 2 x"
    using assms x unfolding two_powr_int by simp
  then have "real_of_int e \<le> log 2 x" by simp
  then show ?thesis by (simp add: le_floor_iff)
qed

text \<open>Rounding to an integer: within a half, and to the integer whose half-open
  neighbourhood holds the number.\<close>

lemma round_half_even_eqI:
  assumes "of_int n - 1 / 2 < m" and "m < of_int n + 1 / 2"
  shows "round_half_even m = n"
proof (cases "m < of_int n")
  case True
  have "\<lfloor>m\<rfloor> = n - 1" using assms True by (intro floor_unique) simp_all
  then show ?thesis using assms True by (simp add: round_half_even_def Let_def)
next
  case False
  have "\<lfloor>m\<rfloor> = n" using assms False by (intro floor_unique) simp_all
  then show ?thesis using assms False by (simp add: round_half_even_def Let_def)
qed

lemma round_half_even_error: "\<bar>of_int (round_half_even m) - m\<bar> \<le> 1 / 2"
proof -
  have "of_int \<lfloor>m\<rfloor> \<le> m" "m < of_int \<lfloor>m\<rfloor> + 1" by linarith+
  then show ?thesis
    by (auto simp: round_half_even_def Let_def abs_le_iff)
qed

lemma round_half_even_ge:
  assumes "of_int a \<le> m"
  shows "a \<le> round_half_even m"
proof -
  have "\<bar>of_int (round_half_even m) - m\<bar> \<le> 1 / 2" by (rule round_half_even_error)
  then have "real_of_int a - 1 / 2 \<le> of_int (round_half_even m)" using assms by linarith
  then have "real_of_int a < of_int (round_half_even m) + 1" by linarith
  then have "a < round_half_even m + 1" by (metis of_int_1 of_int_add of_int_less_iff)
  then show ?thesis by simp
qed

lemma round_half_even_le:
  assumes "m \<le> of_int b"
  shows "round_half_even m \<le> b"
proof -
  have "\<bar>of_int (round_half_even m) - m\<bar> \<le> 1 / 2" by (rule round_half_even_error)
  then have "of_int (round_half_even m) \<le> real_of_int b + 1 / 2" using assms by linarith
  then have "real_of_int (round_half_even m) < of_int b + 1" by linarith
  then have "round_half_even m < b + 1" by (metis of_int_1 of_int_add of_int_less_iff)
  then show ?thesis by simp
qed

text \<open>
  Rules that evaluate \<open>fl\<close> at a given number: the binade \<open>e\<close> and the rounded
  significand \<open>n\<close> are supplied, the side conditions are decided by computation.
\<close>

lemma fl_0: "fl 0 = Fin 0"
  by (simp add: fl_def)

lemma fl_eqI:
  assumes "2 powi e \<le> \<bar>x\<bar>" and "\<bar>x\<bar> < 2 powi (e + 1)"
    and "q = 2 powi (max e (- 1022) - 52)"
    and "round_half_even (x / q) = n"
    and "\<bar>of_int n * q\<bar> < 2 ^ 1024"
  shows "fl x = Fin (of_int n * q)"
proof -
  have "(0::real) < 2 powi e" by simp
  with assms(1) have "0 < \<bar>x\<bar>" by linarith
  then have x: "x \<noteq> 0" by simp
  have e: "\<lfloor>log 2 \<bar>x\<bar>\<rfloor> = e" using assms(1,2) by (rule floor_log2_eqI)
  have nl: "\<not> 2 ^ 1024 \<le> \<bar>of_int n * q\<bar>" using assms(5) by simp
  show ?thesis
    unfolding fl_def Let_def e assms(3) [symmetric] assms(4) using x nl by simp
qed

lemma fl_evalI:
  assumes "2 powi e \<le> \<bar>x\<bar>" and "\<bar>x\<bar> < 2 powi (e + 1)"
    and "q = 2 powi (max e (- 1022) - 52)"
    and "round_half_even (x / q) = n"
    and "\<bar>of_int n * q\<bar> < 2 ^ 1024" and "c = of_int n * q"
  shows "fl x = Fin c"
  unfolding assms(6) using assms(1-5) by (rule fl_eqI)

lemma fl_subnormal_eqI:
  assumes "x \<noteq> 0" and "\<bar>x\<bar> < 2 powi (- 1022)"
    and "q = 2 powi (- 1074)"
    and "round_half_even (x / q) = n"
    and "\<bar>of_int n * q\<bar> < 2 ^ 1024"
  shows "fl x = Fin (of_int n * q)"
proof -
  have "\<lfloor>log 2 \<bar>x\<bar>\<rfloor> < - 1022"
    using assms(1,2) by (intro floor_log2_less) simp_all
  then have m: "max \<lfloor>log 2 \<bar>x\<bar>\<rfloor> (- 1022) - 52 = - 1074" by simp
  have nl: "\<not> 2 ^ 1024 \<le> \<bar>of_int n * q\<bar>" using assms(5) by simp
  show ?thesis
    unfolding fl_def Let_def m assms(3) [symmetric] assms(4) using assms(1) nl by simp
qed

lemma fl_sqrt_eqI:
  assumes "0 \<le> lo" and "lo\<^sup>2 < v" and "v < hi\<^sup>2" and "0 \<le> hi"
    and "(2 powi e)\<^sup>2 \<le> v" and "v < (2 powi (e + 1))\<^sup>2"
    and "q = 2 powi (max e (- 1022) - 52)"
    and "lo = (of_int n - 1 / 2) * q" and "hi = (of_int n + 1 / 2) * q"
    and "\<bar>of_int n * q\<bar> < 2 ^ 1024"
  shows "fl (sqrt v) = Fin (of_int n * q)"
proof -
  have q: "0 < q" using assms(7) by simp
  have v: "0 \<le> v" using assms(2) by (smt (verit) zero_le_power2)
  have l: "lo < sqrt v" using assms(1,2) by (simp add: real_less_rsqrt)
  have h: "sqrt v < hi" using assms(3,4) v by (simp add: real_less_lsqrt)
  have b1: "2 powi e \<le> sqrt v" using assms(5) by (simp add: real_le_rsqrt)
  have b2: "sqrt v < 2 powi (e + 1)" using assms(6) v by (simp add: real_less_lsqrt)
  have s: "\<bar>sqrt v\<bar> = sqrt v" using v by simp
  have r: "round_half_even (sqrt v / q) = n"
  proof (rule round_half_even_eqI)
    show "of_int n - 1 / 2 < sqrt v / q"
      using l q unfolding assms(8) by (simp add: pos_less_divide_eq)
    show "sqrt v / q < of_int n + 1 / 2"
      using h q unfolding assms(9) by (simp add: pos_divide_less_eq)
  qed
  have "2 powi e \<le> \<bar>sqrt v\<bar>" and "\<bar>sqrt v\<bar> < 2 powi (e + 1)"
    unfolding s using b1 b2 by simp_all
  then show ?thesis
    using assms(7) r assms(10) by (rule fl_eqI)
qed

lemma fadd_evalI:
  assumes "2 powi e \<le> \<bar>a + b\<bar>" and "\<bar>a + b\<bar> < 2 powi (e + 1)"
    and "q = 2 powi (max e (- 1022) - 52)"
    and "round_half_even ((a + b) / q) = n"
    and "\<bar>of_int n * q\<bar> < 2 ^ 1024" and "c = of_int n * q"
  shows "fadd (Fin a) (Fin b) = Fin c"
  unfolding fadd.simps assms(6) using assms(1-5) by (rule fl_eqI)

lemma fsub_evalI:
  assumes "2 powi e \<le> \<bar>a - b\<bar>" and "\<bar>a - b\<bar> < 2 powi (e + 1)"
    and "q = 2 powi (max e (- 1022) - 52)"
    and "round_half_even ((a - b) / q) = n"
    and "\<bar>of_int n * q\<bar> < 2 ^ 1024" and "c = of_int n * q"
  shows "fsub (Fin a) (Fin b) = Fin c"
proof -
  have "fsub (Fin a) (Fin b) = fl (a - b)" by (simp add: fsub_def)
  also have "\<dots> = Fin (of_int n * q)" using assms(1-5) by (rule fl_eqI)
  finally show ?thesis using assms(6) by simp
qed

lemma fmul_evalI:
  assumes "2 powi e \<le> \<bar>a * b\<bar>" and "\<bar>a * b\<bar> < 2 powi (e + 1)"
    and "q = 2 powi (max e (- 1022) - 52)"
    and "round_half_even ((a * b) / q) = n"
    and "\<bar>of_int n * q\<bar> < 2 ^ 1024" and "c = of_int n * q"
  shows "fmul (Fin a) (Fin b) = Fin c"
  unfolding fmul.simps assms(6) using assms(1-5) by (rule fl_eqI)

lemma fmul_tinyI:
  assumes "a * b \<noteq> 0" and "\<bar>a * b\<bar> < 2 powi (- 1022)"
    and "q = 2 powi (- 1074)"
    and "round_half_even ((a * b) / q) = n"
    and "\<bar>of_int n * q\<bar> < 2 ^ 1024" and "c = of_int n * q"
  shows "fmul (Fin a) (Fin b) = Fin c"
  unfolding fmul.simps assms(6) using assms(1-5) by (rule fl_subnormal_eqI)

lemma fdiv_evalI:
  assumes "b \<noteq> 0"
    and "2 powi e \<le> \<bar>a / b\<bar>" and "\<bar>a / b\<bar> < 2 powi (e + 1)"
    and "q = 2 powi (max e (- 1022) - 52)"
    and "round_half_even ((a / b) / q) = n"
    and "\<bar>of_int n * q\<bar> < 2 ^ 1024" and "c = of_int n * q"
  shows "fdiv (Fin a) (Fin b) = Fin c"
proof -
  have "fdiv (Fin a) (Fin b) = fl (a / b)" using assms(1) by simp
  also have "\<dots> = Fin (of_int n * q)" using assms(2-6) by (rule fl_eqI)
  finally show ?thesis using assms(7) by simp
qed

lemma fsqrt_evalI:
  assumes "0 \<le> lo" and "lo\<^sup>2 < v" and "v < hi\<^sup>2" and "0 \<le> hi"
    and "(2 powi e)\<^sup>2 \<le> v" and "v < (2 powi (e + 1))\<^sup>2"
    and "q = 2 powi (max e (- 1022) - 52)"
    and "lo = (of_int n - 1 / 2) * q" and "hi = (of_int n + 1 / 2) * q"
    and "\<bar>of_int n * q\<bar> < 2 ^ 1024" and "c = of_int n * q"
  shows "fsqrt (Fin v) = Fin c"
proof -
  have "0 \<le> v" using assms(2) by (smt (verit) zero_le_power2)
  then have "fsqrt (Fin v) = fl (sqrt v)" by simp
  also have "\<dots> = Fin (of_int n * q)" using assms(1-10) by (rule fl_sqrt_eqI)
  finally show ?thesis using assms(11) by simp
qed

lemma fadd_zeroI: "a + b = 0 \<Longrightarrow> fadd (Fin a) (Fin b) = Fin 0"
  by (simp add: fl_0)

lemma fsub_zeroI: "a - b = 0 \<Longrightarrow> fsub (Fin a) (Fin b) = Fin 0"
  by (simp add: fsub_def fl_0)

lemma fmul_zeroI: "a * b = 0 \<Longrightarrow> fmul (Fin a) (Fin b) = Fin 0"
  using fl_0 by auto

lemma fdiv_zeroI: "b \<noteq> 0 \<Longrightarrow> a = 0 \<Longrightarrow> fdiv (Fin a) (Fin b) = Fin 0"
  by (simp add: fl_0)

lemma fsqrt_zero: "fsqrt (Fin 0) = Fin 0"
  by (simp add: fl_0)

lemma fadd_Fin_D:
  assumes "fadd a b = Fin v"
  shows "\<exists>a' b'. a = Fin a' \<and> b = Fin b' \<and> fl (a' + b') = Fin v"
  using assms by (cases a; cases b) simp_all

text \<open>The relative error of a rounding in the normal range is at most \<open>2\<^sup>-\<^sup>5\<^sup>3\<close>.\<close>

lemma fl_error:
  assumes "2 powi (- 1022) \<le> \<bar>x\<bar>" and "\<bar>x\<bar> \<le> 2 powi 1023"
  shows "\<exists>r. fl x = Fin r \<and> \<bar>r - x\<bar> \<le> \<bar>x\<bar> / 2 ^ 53"
proof -
  define e where "e = \<lfloor>log 2 \<bar>x\<bar>\<rfloor>"
  define q :: real where "q = 2 powi (e - 52)"
  define n where "n = round_half_even (x / q)"
  have "(0::real) < 2 powi (- 1022)" by simp
  with assms(1) have x: "0 < \<bar>x\<bar>" by linarith
  then have x0: "x \<noteq> 0" by simp
  have b: "2 powi e \<le> \<bar>x\<bar>" "\<bar>x\<bar> < 2 powi (e + 1)"
    unfolding e_def using floor_log2_bounds [OF x] by simp_all
  have e: "- 1022 \<le> e" unfolding e_def using assms(1) by (rule floor_log2_ge)
  then have m: "max e (- 1022) = e" by simp
  have q: "0 < q" unfolding q_def by simp
  have q2: "q * 2 ^ 52 = 2 powi e" unfolding q_def by (simp add: power_int_diff)
  have "\<bar>of_int n - x / q\<bar> \<le> 1 / 2" unfolding n_def by (rule round_half_even_error)
  then have "q * \<bar>of_int n - x / q\<bar> \<le> q * (1 / 2)"
    using q by (intro mult_left_mono) simp_all
  moreover have "q * \<bar>of_int n - x / q\<bar> = \<bar>of_int n * q - x\<bar>"
  proof -
    have "q * \<bar>of_int n - x / q\<bar> = \<bar>q * (of_int n - x / q)\<bar>"
      using q by (simp add: abs_mult)
    also have "q * (of_int n - x / q) = of_int n * q - x"
      using q by (simp add: field_simps)
    finally show ?thesis .
  qed
  ultimately have err: "\<bar>of_int n * q - x\<bar> \<le> q / 2" by simp
  have "q = 2 powi e / 2 ^ 52" using q2 by (simp add: field_simps)
  also have "\<dots> \<le> \<bar>x\<bar> / 2 ^ 52" using b(1) by (simp add: divide_right_mono)
  finally have qx: "q / 2 \<le> \<bar>x\<bar> / 2 ^ 53" by simp
  have err2: "\<bar>of_int n * q - x\<bar> \<le> \<bar>x\<bar> / 2 ^ 53" using err qx by linarith
  have "\<bar>of_int n * q\<bar> \<le> \<bar>x\<bar> + \<bar>x\<bar> / 2 ^ 53" using err2 by linarith
  also have "\<dots> \<le> 2 powi 1023 + 2 powi 1023 / 2 ^ 53"
    using assms(2) by (intro add_mono divide_right_mono) simp_all
  also have "\<dots> < 2 ^ 1024" by simp
  finally have fin: "\<not> 2 ^ 1024 \<le> \<bar>of_int n * q\<bar>" by simp
  have "fl x = Fin (of_int n * q)"
    unfolding fl_def Let_def e_def [symmetric] m q_def [symmetric] n_def [symmetric]
    using x0 fin by simp
  with err2 show ?thesis by blast
qed

lemma fl_power_of_two:
  assumes "- 1022 \<le> j" and "j \<le> 1023"
  shows "fl (2 powi j) = Fin (2 powi j)"
proof -
  have q: "(2::real) powi j / 2 powi (j - 52) = 2 ^ 52" by (simp add: power_int_diff)
  have r: "round_half_even (2 ^ 52) = 2 ^ 52" by (rule round_half_even_eqI) simp_all
  have v: "real_of_int (2 ^ 52) * 2 powi (j - 52) = 2 powi j" by (simp add: power_int_diff)
  have "(2::real) powi j \<le> 2 powi 1023"
    using assms(2) by (intro power_int_increasing) simp_all
  also have "\<dots> < 2 ^ 1024" by simp
  finally have lt: "(2::real) powi j < 2 ^ 1024" .
  have "fl (2 powi j) = Fin (of_int (2 ^ 52) * 2 powi (max j (- 1022) - 52))"
  proof (rule fl_eqI [where e = j])
    show "(2::real) powi j \<le> \<bar>2 powi j\<bar>" by simp
    show "\<bar>(2::real) powi j\<bar> < 2 powi (j + 1)" by (simp add: power_int_add)
    show "(2::real) powi (max j (- 1022) - 52) = 2 powi (max j (- 1022) - 52)" ..
    show "round_half_even (2 powi j / 2 powi (max j (- 1022) - 52)) = 2 ^ 52"
      using assms(1) q r by (simp add: max_def)
    show "\<bar>real_of_int (2 ^ 52) * 2 powi (max j (- 1022) - 52)\<bar> < 2 ^ 1024"
      using assms(1) v lt by (simp add: max_def)
  qed
  then show ?thesis using assms(1) v by (simp add: max_def)
qed

lemma fl_1: "fl 1 = Fin 1"
  using fl_power_of_two [of 0] by simp

text \<open>
  The correctly rounded square root of the correctly rounded square of a binary64
  number returns the number, as long as the square stays in the normal range: the
  number is \<open>m \<times> 2\<^sup>k\<close> with a 53-bit significand \<open>m\<close>.
\<close>

lemma sqrt_rounded_square:
  fixes m :: int
  assumes m: "2 ^ 52 \<le> m" "m < 2 ^ 53" and k: "- 563 \<le> k" "k \<le> 458"
  shows "fsqrt (fmul (Fin (of_int m * 2 powi k)) (Fin (of_int m * 2 powi k))) =
           Fin (of_int m * 2 powi k)"
proof -
  define M :: real where "M = of_int m"
  define q :: real where "q = 2 powi k"
  define v where "v = M * q"
  have q: "0 < q" unfolding q_def by simp
  have M: "2 ^ 52 \<le> M" "M \<le> 2 ^ 53 - 1"
    using m unfolding M_def
    by (simp_all add: of_int_le_iff [of "2 ^ 52" m, simplified]
        of_int_le_iff [of m "2 ^ 53 - 1", simplified])
  have v: "0 < v" unfolding v_def using M q by simp
  have vlo: "2 powi (k + 52) \<le> v"
    unfolding v_def q_def using M(1) by (simp add: power_int_add mult.commute)
  have vhi: "v < 2 powi (k + 53)"
    unfolding v_def q_def using M(2) by (simp add: power_int_add mult.commute)
  show ?thesis
  proof (cases "M = 2 ^ 52")
    case True
    have ve: "v = 2 powi (k + 52)"
      unfolding v_def q_def True by (simp add: power_int_add mult.commute)
    have sq: "v * v = 2 powi (2 * (k + 52))"
      unfolding ve by (simp add: power_int_add [symmetric])
    have f1: "fmul (Fin v) (Fin v) = Fin (2 powi (2 * (k + 52)))"
      unfolding fmul.simps sq using k by (intro fl_power_of_two) simp_all
    have f2: "sqrt (2 powi (2 * (k + 52))) = 2 powi (k + 52)"
      using sq [symmetric] ve v by (simp add: real_sqrt_mult_self)
    have f3: "fl (2 powi (k + 52)) = Fin (2 powi (k + 52))"
      using k by (intro fl_power_of_two) simp_all
    have "(0::real) < 2 powi (2 * (k + 52))" by simp
    then have f4: "\<not> (2::real) powi (2 * (k + 52)) < 0" by linarith
    have "fsqrt (fmul (Fin v) (Fin v)) = Fin v"
      unfolding f1 fsqrt.simps if_not_P [OF f4] f2 f3 by (simp only: ve)
    then show ?thesis unfolding v_def M_def q_def .
  next
    case False
    have "m \<noteq> 2 ^ 52"
    proof
      assume "m = 2 ^ 52"
      then have "M = 2 ^ 52" unfolding M_def by simp
      with False show False by simp
    qed
    with m(1) have "2 ^ 52 + 1 \<le> m" by linarith
    then have "real_of_int (2 ^ 52 + 1) \<le> real_of_int m" by (simp only: of_int_le_iff)
    then have M1: "2 ^ 52 + 1 \<le> M" unfolding M_def by simp
    have r1: "2 powi (- 1022) \<le> \<bar>v * v\<bar>"
    proof -
      have "(2::real) powi (- 1022) \<le> 2 powi (2 * (k + 52))"
        using k by (intro power_int_increasing) simp_all
      also have "\<dots> = 2 powi (k + 52) * 2 powi (k + 52)"
        by (simp add: power_int_add [symmetric])
      also have "\<dots> \<le> v * v" using vlo v by (intro mult_mono) simp_all
      finally show ?thesis by simp
    qed
    have r2: "\<bar>v * v\<bar> \<le> 2 powi 1023"
    proof -
      have "v * v \<le> 2 powi (k + 53) * 2 powi (k + 53)"
        using vhi v by (intro mult_mono) simp_all
      also have "\<dots> = 2 powi (2 * (k + 53))" by (simp add: power_int_add [symmetric])
      also have "\<dots> \<le> 2 powi 1023" using k by (intro power_int_increasing) simp_all
      finally show ?thesis by simp
    qed
    from fl_error [OF r1 r2] obtain s
      where s: "fl (v * v) = Fin s" and err: "\<bar>s - v * v\<bar> \<le> \<bar>v * v\<bar> / 2 ^ 53"
      by blast
    have err': "\<bar>s - v * v\<bar> \<le> v * v / 2 ^ 53" using err by simp
    have MM: "M * M / 2 ^ 53 \<le> M - 1 / 2"
    proof -
      have "M * M \<le> M * (2 ^ 53 - 1)" using M by (intro mult_left_mono) simp_all
      then have "M * M / 2 ^ 53 \<le> M * (2 ^ 53 - 1) / 2 ^ 53"
        by (simp add: divide_right_mono)
      also have "\<dots> = M - M / 2 ^ 53" by (simp add: field_simps)
      also have "\<dots> \<le> M - 1 / 2" using M(1) by simp
      finally show ?thesis .
    qed
    define lo where "lo = (M - 1 / 2) * q"
    define hi where "hi = (M + 1 / 2) * q"
    have lo0: "0 \<le> lo" and hi0: "0 \<le> hi"
      unfolding lo_def hi_def using M q by simp_all
    have vv: "v * v = M * M * (q * q)" unfolding v_def by (simp add: algebra_simps)
    have qq: "0 < q * q" using q by simp
    have "lo\<^sup>2 = (M * M - M + 1 / 4) * (q * q)"
      unfolding lo_def by (simp add: power2_eq_square algebra_simps)
    also have "\<dots> < (M * M - M * M / 2 ^ 53) * (q * q)"
      using MM qq by (intro mult_strict_right_mono) simp_all
    also have "\<dots> = v * v - v * v / 2 ^ 53" unfolding vv by (simp add: algebra_simps)
    also have "\<dots> \<le> s" using err' by linarith
    finally have c2: "lo\<^sup>2 < s" .
    have "s \<le> v * v + v * v / 2 ^ 53" using err' by linarith
    also have "\<dots> = (M * M + M * M / 2 ^ 53) * (q * q)"
      unfolding vv by (simp add: algebra_simps)
    also have "\<dots> < (M * M + M + 1 / 4) * (q * q)"
      using MM qq M by (intro mult_strict_right_mono) simp_all
    also have "\<dots> = hi\<^sup>2"
      unfolding hi_def by (simp add: power2_eq_square algebra_simps)
    finally have c3: "s < hi\<^sup>2" .
    have e1: "2 powi (k + 52) \<le> lo"
    proof -
      have "2 powi (k + 52) = 2 ^ 52 * q"
        unfolding q_def by (simp add: power_int_add mult.commute)
      also have "\<dots> \<le> (M - 1 / 2) * q" using M1 q by (intro mult_right_mono) simp_all
      finally show ?thesis unfolding lo_def .
    qed
    have e2: "hi < 2 powi (k + 52 + 1)"
    proof -
      have "(M + 1 / 2) * q < 2 ^ 53 * q"
        using M(2) q by (intro mult_strict_right_mono) simp_all
      also have "\<dots> = 2 powi (k + 52 + 1)"
        unfolding q_def by (simp add: power_int_add mult.commute)
      finally show ?thesis unfolding hi_def .
    qed
    have c5: "(2 powi (k + 52))\<^sup>2 \<le> s"
    proof -
      have "(2 powi (k + 52))\<^sup>2 \<le> lo\<^sup>2" using e1 by (intro power_mono) simp_all
      with c2 show ?thesis by linarith
    qed
    have c6: "s < (2 powi (k + 52 + 1))\<^sup>2"
    proof -
      have "hi\<^sup>2 < (2 powi (k + 52 + 1))\<^sup>2"
        using e2 hi0 by (intro power_strict_mono) simp_all
      with c3 show ?thesis by linarith
    qed
    have c7: "q = 2 powi (max (k + 52) (- 1022) - 52)"
      unfolding q_def using k by (simp add: max_def)
    have c10: "\<bar>of_int m * q\<bar> < 2 ^ 1024"
    proof -
      have "(2::real) powi (k + 53) \<le> 2 powi 1023"
        using k by (intro power_int_increasing) simp_all
      with vhi have "v < 2 powi 1023" by linarith
      also have "\<dots> < 2 ^ 1024" by simp
      finally show ?thesis using v unfolding v_def M_def by simp
    qed
    have c8: "lo = (of_int m - 1 / 2) * q" and c9: "hi = (of_int m + 1 / 2) * q"
      unfolding lo_def hi_def M_def by simp_all
    have "fsqrt (Fin s) = Fin (of_int m * q)"
      by (rule fsqrt_evalI [OF lo0 c2 c3 hi0 c5 c6 c7 c8 c9 c10]) (rule refl)
    then show ?thesis
      unfolding fmul.simps using s unfolding v_def M_def q_def by simp
  qed
qed

text \<open>Every finite rounded value in the range below is \<open>m \<times> 2\<^sup>k\<close> with a 53-bit \<open>m\<close>.\<close>

lemma fl_Fin_D:
  assumes "fl x = Fin v" and "x \<noteq> 0"
  shows "v = of_int (round_half_even (x / 2 powi (max \<lfloor>log 2 \<bar>x\<bar>\<rfloor> (- 1022) - 52))) *
             2 powi (max \<lfloor>log 2 \<bar>x\<bar>\<rfloor> (- 1022) - 52)"
proof -
  define r where "r = of_int (round_half_even (x / 2 powi (max \<lfloor>log 2 \<bar>x\<bar>\<rfloor> (- 1022) - 52))) *
             (2::real) powi (max \<lfloor>log 2 \<bar>x\<bar>\<rfloor> (- 1022) - 52)"
  have "fl x = (if \<bar>r\<bar> \<ge> 2 ^ 1024 then (if x > 0 then PosInfinity else NegInfinity) else Fin r)"
    unfolding fl_def Let_def r_def using assms(2) by (simp only: if_False)
  with assms(1) have "v = r" by (simp only: split: if_splits) auto
  then show ?thesis unfolding r_def .
qed

lemma fl_normal_form:
  assumes "fl x = Fin v" and "2 powi (- 511) \<le> v" and "v < 2 powi 511"
  shows "\<exists>m k. v = of_int m * 2 powi k \<and> 2 ^ 52 \<le> m \<and> m < 2 ^ 53 \<and> - 563 \<le> k \<and> k \<le> 458"
proof -
  have "(0::real) < 2 powi (- 511)" by simp
  with assms(2) have vpos: "0 < v" by linarith
  have x0: "x \<noteq> 0"
  proof
    assume "x = 0"
    then have "fl x = Fin 0" by (simp add: fl_0)
    with assms(1) vpos show False by simp
  qed
  define e where "e = max \<lfloor>log 2 \<bar>x\<bar>\<rfloor> (- 1022)"
  define q :: real where "q = 2 powi (e - 52)"
  define n where "n = round_half_even (x / q)"
  have q: "0 < q" unfolding q_def by simp
  have v: "v = of_int n * q"
    using fl_Fin_D [OF assms(1) x0]
    unfolding e_def [symmetric] q_def [symmetric] n_def [symmetric] .
  have npos: "0 < n"
  proof -
    have "0 < real_of_int n * q" using v vpos by simp
    then have "0 < real_of_int n" using q by (simp add: zero_less_mult_iff)
    then show ?thesis by simp
  qed
  have xa: "0 < \<bar>x\<bar>" using x0 by simp
  have hi: "\<bar>x\<bar> < 2 powi (e + 1)"
  proof -
    have "\<bar>x\<bar> < 2 powi (\<lfloor>log 2 \<bar>x\<bar>\<rfloor> + 1)" using floor_log2_bounds(2) [OF xa] .
    also have "\<dots> \<le> 2 powi (e + 1)"
      unfolding e_def by (intro power_int_increasing) simp_all
    finally show ?thesis .
  qed
  have q53: "q * 2 ^ 53 = 2 powi (e + 1)"
    unfolding q_def by (simp add: power_int_diff power_int_add)
  have q52: "q * 2 ^ 52 = 2 powi e" unfolding q_def by (simp add: power_int_diff)
  have "\<bar>x / q\<bar> = \<bar>x\<bar> / q" using q by simp
  also have "\<dots> < 2 ^ 53" using hi q q53 by (simp add: pos_divide_less_eq mult.commute)
  finally have xq: "\<bar>x / q\<bar> < 2 ^ 53" .
  have nle: "n \<le> 2 ^ 53"
  proof -
    have "x / q \<le> \<bar>x / q\<bar>" by (rule abs_ge_self)
    with xq have "x / q \<le> 2 ^ 53" by linarith
    then have "x / q \<le> real_of_int (2 ^ 53)" by simp
    then show ?thesis unfolding n_def by (rule round_half_even_le)
  qed
  have elog: "e = \<lfloor>log 2 \<bar>x\<bar>\<rfloor>"
  proof (rule ccontr)
    assume "e \<noteq> \<lfloor>log 2 \<bar>x\<bar>\<rfloor>"
    then have e: "e = - 1022" unfolding e_def by (simp add: max_def split: if_splits)
    have "v \<le> 2 ^ 53 * q"
      unfolding v using nle q
      by (intro mult_right_mono) (simp_all add: of_int_le_iff [of n "2 ^ 53", simplified])
    also have "\<dots> = 2 powi (- 1021)" using q53 e by (simp add: mult.commute)
    also have "\<dots> < 2 powi (- 511)" by (intro power_int_strict_increasing) simp_all
    finally show False using assms(2) by simp
  qed
  have lo: "2 powi e \<le> \<bar>x\<bar>" unfolding elog using floor_log2_bounds(1) [OF xa] .
  have xpos: "0 < x"
  proof (rule ccontr)
    assume "\<not> 0 < x"
    then have "x / q \<le> real_of_int 0" using q by (simp add: divide_le_0_iff)
    then have "n \<le> 0" unfolding n_def by (rule round_half_even_le)
    with npos show False by simp
  qed
  have "2 ^ 52 \<le> x / q" using lo xpos q q52 by (simp add: pos_le_divide_eq mult.commute)
  then have "real_of_int (2 ^ 52) \<le> x / q" by simp
  then have nge: "2 ^ 52 \<le> n" unfolding n_def by (rule round_half_even_ge)
  show ?thesis
  proof (cases "n = 2 ^ 53")
    case True
    have ve: "v = of_int (2 ^ 52) * 2 powi (e - 51)"
      unfolding v True q_def by (simp add: power_int_diff)
    have vv: "v = 2 powi (e + 1)" unfolding v True using q53 by (simp add: mult.commute)
    have "e + 1 < 511" using assms(3) unfolding vv by (simp only: two_powi_less_iff)
    moreover have "- 511 \<le> e + 1" using assms(2) unfolding vv by (simp only: two_powi_le_iff)
    ultimately have "- 563 \<le> e - 51" and "e - 51 \<le> 458" by linarith+
    moreover have "(2::int) ^ 52 \<le> 2 ^ 52" and "(2::int) ^ 52 < 2 ^ 53" by simp_all
    ultimately show ?thesis using ve by blast
  next
    case False
    with nle have nlt: "n < 2 ^ 53" by simp
    have "2 powi e \<le> v"
    proof -
      have "2 powi e = 2 ^ 52 * q" using q52 by (simp add: mult.commute)
      also have "\<dots> \<le> of_int n * q"
        using nge q
        by (intro mult_right_mono) (simp_all add: of_int_le_iff [of "2 ^ 52" n, simplified])
      finally show ?thesis unfolding v .
    qed
    with assms(3) have "(2::real) powi e < 2 powi 511" by linarith
    then have e1: "e < 511" by (simp only: two_powi_less_iff)
    have "v < 2 powi (e + 1)"
    proof -
      have "of_int n * q < 2 ^ 53 * q"
        using nlt q
        by (intro mult_strict_right_mono)
          (simp_all add: of_int_less_iff [of n "2 ^ 53", simplified])
      also have "\<dots> = 2 powi (e + 1)" using q53 by (simp add: mult.commute)
      finally show ?thesis unfolding v .
    qed
    with assms(2) have "(2::real) powi (- 511) < 2 powi (e + 1)" by linarith
    then have e2: "- 511 < e + 1" by (simp only: two_powi_less_iff)
    have "- 563 \<le> e - 52" and "e - 52 \<le> 458" using e1 e2 by linarith+
    with v nge nlt show ?thesis unfolding q_def by blast
  qed
qed

section \<open>Properties of the correlation estimator\<close>

text \<open>The loop computes the three sums of deviations from the computed means.\<close>

lemma corr_loop_prefix:
  assumes "n \<le> length x" and "n \<le> length y"
  shows "fold (\<lambda>i (numerator, denomX, denomY).
             let dx = fsub (x ! i) mx; dy = fsub (y ! i) my
             in (fadd numerator (fmul dx dy), fadd denomX (fmul dx dx),
                 fadd denomY (fmul dy dy)))
          [0..<n] (Fin 0, Fin 0, Fin 0) =
         (foldl (\<lambda>acc (u, v). fadd acc (fmul (fsub u mx) (fsub v my))) (Fin 0)
            (zip (take n x) (take n y)),
          foldl (\<lambda>acc v. fadd acc (fmul (fsub v mx) (fsub v mx))) (Fin 0) (take n x),
          foldl (\<lambda>acc v. fadd acc (fmul (fsub v my) (fsub v my))) (Fin 0) (take n y))"
  using assms
proof (induction n)
  case 0
  show ?case by simp
next
  case (Suc n)
  then have n: "n < length x" "n < length y" by simp_all
  have t: "take (Suc n) x = take n x @ [x ! n]" "take (Suc n) y = take n y @ [y ! n]"
    using n by (simp_all add: take_Suc_conv_app_nth)
  have l: "length (take n x) = length (take n y)" using n by simp
  show ?case
    using Suc.IH n unfolding t by (simp add: Let_def zip_append [OF l])
qed

lemma calculateCorrelation_unfold:
  assumes "length x = length y" and "x \<noteq> []"
  shows "calculateCorrelation x y =
           (if squaredDeviations x = Fin 0 \<or> squaredDeviations y = Fin 0 then Return (Fin 0)
            else Return (fdiv (crossDeviations x y)
                   (fsqrt (fmul (squaredDeviations x) (squaredDeviations y)))))"
proof -
  have loop: "corr_loop x y (computedMean x) (computedMean y) (length x) =
          (crossDeviations x y, squaredDeviations x, squaredDeviations y)"
  proof -
    have t: "take (length x) x = x" "take (length x) y = y" by (simp_all add: assms(1))
    have "length x \<le> length x" and "length x \<le> length y" by (simp_all add: assms(1))
    from corr_loop_prefix [OF this, of "computedMean x" "computedMean y"]
    show ?thesis
      unfolding corr_loop_def t crossDeviations_def squaredDeviations_def .
  qed
  have g: "\<not> (length x \<noteq> length y \<or> length x = 0)" using assms by auto
  have mx: "fdiv (foldl (\<lambda>a b. fadd a b) (Fin 0) x) (Fin (real (length x))) = computedMean x"
    by (simp add: computedMean_def)
  have my: "fdiv (foldl (\<lambda>a b. fadd a b) (Fin 0) y) (Fin (real (length x))) = computedMean y"
    by (simp add: computedMean_def assms(1))
  show ?thesis
    unfolding calculateCorrelation_def Let_def if_not_P [OF g] mx my loop
    by (simp only: prod.case)
qed

lemma calculateCorrelation_guard:
  assumes "length x \<noteq> length y \<or> x = []"
  shows "calculateCorrelation x y = Return (Fin 0)"
  using assms by (auto simp: calculateCorrelation_def)

lemma calculateCorrelation_returns: "\<exists>v. calculateCorrelation x y = Return v"
  by (simp add: calculateCorrelation_def Let_def split: prod.split)

lemma crossDeviations_self: "crossDeviations x x = squaredDeviations x"
proof -
  have "foldl (\<lambda>acc (u, v). fadd acc (fmul (fsub u m) (fsub v m))) a (zip x x) =
        foldl (\<lambda>acc v. fadd acc (fmul (fsub v m) (fsub v m))) a x" for m a
    by (induction x arbitrary: a) simp_all
  then show ?thesis by (simp add: crossDeviations_def squaredDeviations_def)
qed

text \<open>A slice whose entries all equal the mean computed for it has no deviation.\<close>

lemma zero_deviations:
  assumes "\<forall>a \<in> set x. fsub a m = Fin 0"
  shows "foldl (\<lambda>acc v. fadd acc (fmul (fsub v m) (fsub v m))) (Fin 0) x = Fin 0"
  using assms by (induction x) (simp_all add: fl_0)

lemma squaredDeviations_at_mean:
  assumes "at_computed_mean x"
  shows "squaredDeviations x = Fin 0"
proof -
  from assms obtain m where m: "computedMean x = Fin m" "\<forall>a \<in> set x. a = Fin m"
    by (auto simp: at_computed_mean_def)
  have "\<forall>a \<in> set x. fsub a (Fin m) = Fin 0"
  proof
    fix a assume "a \<in> set x"
    with m(2) have "a = Fin m" by blast
    then show "fsub a (Fin m) = Fin 0" by (simp add: fsub_def fl_0)
  qed
  then show ?thesis unfolding squaredDeviations_def m(1) by (rule zero_deviations)
qed



text \<open>
  The sum of squared deviations of a nonempty slice is the result of a last addition,
  hence a rounded value.
\<close>

lemma squaredDeviations_rounded:
  assumes "x \<noteq> []" and "squaredDeviations x = Fin v"
  shows "\<exists>t. fl t = Fin v"
proof -
  from assms(1) obtain xs a where x: "x = xs @ [a]" by (metis rev_exhaust)
  have "squaredDeviations x =
      fadd (foldl (\<lambda>acc v. fadd acc (fmul (fsub v (computedMean x)) (fsub v (computedMean x))))
              (Fin 0) xs)
           (fmul (fsub a (computedMean x)) (fsub a (computedMean x)))"
    unfolding squaredDeviations_def by (subst (3) x) simp
  with assms(2) fadd_Fin_D show ?thesis by metis
qed

text \<open>
  A slice against itself: when the sum of squared deviations \<open>v\<close> is such that its
  square neither overflows nor leaves the normal range, the square root of the rounded
  square is \<open>v\<close> again and the quotient is exactly \<open>1\<close>.
\<close>

lemma corr_self_one:
  assumes "x \<noteq> []" and "squaredDeviations x = Fin v"
    and "2 powi (- 511) \<le> v" and "v < 2 powi 511"
  shows "calculateCorrelation x x = Return (Fin 1)"
proof -
  from squaredDeviations_rounded [OF assms(1,2)] obtain t where "fl t = Fin v" by blast
  from fl_normal_form [OF this assms(3,4)] obtain m k
    where v: "v = of_int m * 2 powi k" and m: "2 ^ 52 \<le> m" "m < 2 ^ 53"
      and k: "- 563 \<le> k" "k \<le> 458"
    by blast
  have root: "fsqrt (fmul (Fin v) (Fin v)) = Fin v"
    unfolding v using m k by (rule sqrt_rounded_square)
  have "(0::real) < 2 powi (- 511)" by simp
  with assms(3) have v0: "v \<noteq> 0" by linarith
  then have q: "fdiv (Fin v) (Fin v) = Fin 1" by (simp add: fl_1)
  have nz: "squaredDeviations x \<noteq> Fin 0" using assms(2) v0 by simp
  show ?thesis
    using assms(1) nz
    by (simp add: calculateCorrelation_unfold crossDeviations_self assms(2) root q
        del: fdiv.simps fsqrt.simps fmul.simps)
qed

lemma calculateCorrelation_3:
  "calculateCorrelation [x0, x1, x2] [y0, y1, y2] =
     (let meanX = fdiv (fadd (fadd (fadd (Fin 0) x0) x1) x2) (Fin 3);
          meanY = fdiv (fadd (fadd (fadd (Fin 0) y0) y1) y2) (Fin 3);
          dx0 = fsub x0 meanX; dy0 = fsub y0 meanY;
          dx1 = fsub x1 meanX; dy1 = fsub y1 meanY;
          dx2 = fsub x2 meanX; dy2 = fsub y2 meanY;
          numerator = fadd (fadd (fadd (Fin 0) (fmul dx0 dy0)) (fmul dx1 dy1)) (fmul dx2 dy2);
          denomX = fadd (fadd (fadd (Fin 0) (fmul dx0 dx0)) (fmul dx1 dx1)) (fmul dx2 dx2);
          denomY = fadd (fadd (fadd (Fin 0) (fmul dy0 dy0)) (fmul dy1 dy1)) (fmul dy2 dy2)
      in if denomX = Fin 0 \<or> denomY = Fin 0 then Return (Fin 0)
         else Return (fdiv numerator (fsqrt (fmul denomX denomY))))"
proof -
  have u: "[0..<3] = [0, 1, 2]" by (simp add: upt_rec)
  show ?thesis
    by (simp add: calculateCorrelation_def corr_loop_def Let_def u)
qed

lemma calculateCorrelation_2:
  "calculateCorrelation [x0, x1] [y0, y1] =
     (let meanX = fdiv (fadd (fadd (Fin 0) x0) x1) (Fin 2);
          meanY = fdiv (fadd (fadd (Fin 0) y0) y1) (Fin 2);
          dx0 = fsub x0 meanX; dy0 = fsub y0 meanY;
          dx1 = fsub x1 meanX; dy1 = fsub y1 meanY;
          numerator = fadd (fadd (Fin 0) (fmul dx0 dy0)) (fmul dx1 dy1);
          denomX = fadd (fadd (Fin 0) (fmul dx0 dx0)) (fmul dx1 dx1);
          denomY = fadd (fadd (Fin 0) (fmul dy0 dy0)) (fmul dy1 dy1)
      in if denomX = Fin 0 \<or> denomY = Fin 0 then Return (Fin 0)
         else Return (fdiv numerator (fsqrt (fmul denomX denomY))))"
proof -
  have u: "[0..<2] = [0, 1]" by (simp add: upt_rec)
  show ?thesis
    by (simp add: calculateCorrelation_def corr_loop_def Let_def u)
qed

lemma squaredDeviations_3:
  "squaredDeviations [x0, x1, x2] =
     (let meanX = fdiv (fadd (fadd (fadd (Fin 0) x0) x1) x2) (Fin 3);
          dx0 = fsub x0 meanX; dx1 = fsub x1 meanX; dx2 = fsub x2 meanX
      in fadd (fadd (fadd (Fin 0) (fmul dx0 dx0)) (fmul dx1 dx1)) (fmul dx2 dx2))"
  by (simp add: squaredDeviations_def computedMean_def Let_def)



text \<open>
  The constant slice of the double \<^verbatim>\<open>0.1\<close> against itself: the result is \<open>1\<close>.
\<close>

lemma correlation_constant_self:
  "calculateCorrelation [Fin (3602879701896397 / 36028797018963968), Fin (3602879701896397 / 36028797018963968), Fin (3602879701896397 / 36028797018963968)]
     [Fin (3602879701896397 / 36028797018963968), Fin (3602879701896397 / 36028797018963968), Fin (3602879701896397 / 36028797018963968)] =
   Return (Fin 1)"
proof -
  have c1: "fadd (Fin 0) (Fin (3602879701896397 / 36028797018963968)) = Fin (3602879701896397 / 36028797018963968)"
    by (rule fadd_evalI [where e = "- 4" and n = "7205759403792794" and q = "1 / 72057594037927936"])
       (simp_all add: power_int_minus divide_simps round_half_even_def Let_def)
  have c2: "fadd (Fin (3602879701896397 / 36028797018963968)) (Fin (3602879701896397 / 36028797018963968)) = Fin (3602879701896397 / 18014398509481984)"
    by (rule fadd_evalI [where e = "- 3" and n = "7205759403792794" and q = "1 / 36028797018963968"])
       (simp_all add: power_int_minus divide_simps round_half_even_def Let_def)
  have c3: "fadd (Fin (3602879701896397 / 18014398509481984)) (Fin (3602879701896397 / 36028797018963968)) = Fin (1351079888211149 / 4503599627370496)"
    by (rule fadd_evalI [where e = "- 2" and n = "5404319552844596" and q = "1 / 18014398509481984"])
       (simp_all add: power_int_minus divide_simps round_half_even_def Let_def)
  have c4: "fdiv (Fin (1351079888211149 / 4503599627370496)) (Fin 3) = Fin (7205759403792795 / 72057594037927936)"
    by (rule fdiv_evalI [where e = "- 4" and n = "7205759403792795" and q = "1 / 72057594037927936"])
       (simp_all add: power_int_minus divide_simps round_half_even_def Let_def)
  have c5: "fsub (Fin (3602879701896397 / 36028797018963968)) (Fin (7205759403792795 / 72057594037927936)) = Fin (- (1 / 72057594037927936))"
    by (rule fsub_evalI [where e = "- 56" and n = "- 4503599627370496" and q = "1 / 324518553658426726783156020576256"])
       (simp_all add: power_int_minus divide_simps round_half_even_def Let_def)
  have c6: "fmul (Fin (- (1 / 72057594037927936))) (Fin (- (1 / 72057594037927936))) = Fin (1 / 5192296858534827628530496329220096)"
    by (rule fmul_evalI [where e = "- 112" and n = "4503599627370496" and q = "1 / 23384026197294446691258957323460528314494920687616"])
       (simp_all add: power_int_minus divide_simps round_half_even_def Let_def)
  have c7: "fadd (Fin 0) (Fin (1 / 5192296858534827628530496329220096)) = Fin (1 / 5192296858534827628530496329220096)"
    by (rule fadd_evalI [where e = "- 112" and n = "4503599627370496" and q = "1 / 23384026197294446691258957323460528314494920687616"])
       (simp_all add: power_int_minus divide_simps round_half_even_def Let_def)
  have c8: "fadd (Fin (1 / 5192296858534827628530496329220096)) (Fin (1 / 5192296858534827628530496329220096)) = Fin (1 / 2596148429267413814265248164610048)"
    by (rule fadd_evalI [where e = "- 111" and n = "4503599627370496" and q = "1 / 11692013098647223345629478661730264157247460343808"])
       (simp_all add: power_int_minus divide_simps round_half_even_def Let_def)
  have c9: "fadd (Fin (1 / 2596148429267413814265248164610048)) (Fin (1 / 5192296858534827628530496329220096)) = Fin (3 / 5192296858534827628530496329220096)"
    by (rule fadd_evalI [where e = "- 111" and n = "6755399441055744" and q = "1 / 11692013098647223345629478661730264157247460343808"])
       (simp_all add: power_int_minus divide_simps round_half_even_def Let_def)
  have c10: "fmul (Fin (3 / 5192296858534827628530496329220096)) (Fin (3 / 5192296858534827628530496329220096)) = Fin (9 / 26959946667150639794667015087019630673637144422540572481103610249216)"
    by (rule fmul_evalI [where e = "- 221" and n = "5066549580791808" and q = "1 / 15177100720513508366558296147058741458143803430094840009779784451085189728165691392"])
       (simp_all add: power_int_minus divide_simps round_half_even_def Let_def)
  have c11: "fsqrt (Fin (9 / 26959946667150639794667015087019630673637144422540572481103610249216)) = Fin (3 / 5192296858534827628530496329220096)"
    by (rule fsqrt_evalI [where e = "- 111" and n = "6755399441055744" and q = "1 / 11692013098647223345629478661730264157247460343808"
          and lo = "13510798882111487 / 23384026197294446691258957323460528314494920687616" and hi = "13510798882111489 / 23384026197294446691258957323460528314494920687616"])
       (simp_all add: power_int_minus divide_simps round_half_even_def Let_def power2_eq_square)
  have c12: "fdiv (Fin (3 / 5192296858534827628530496329220096)) (Fin (3 / 5192296858534827628530496329220096)) = Fin 1"
    by (rule fdiv_evalI [where e = "0" and n = "4503599627370496" and q = "1 / 4503599627370496"])
       (simp_all add: power_int_minus divide_simps round_half_even_def Let_def)
  show ?thesis
    unfolding calculateCorrelation_3 Let_def
    by (simp only: c1 c2 c3 c4 c5 c6 c7 c8 c9 c10 c11 c12) simp
qed

text \<open>
  The slice \<open>[2\<^sup>-\<^sup>6\<^sup>0\<^sup>0, 2\<^sup>-\<^sup>5\<^sup>9\<^sup>9]\<close> against itself: the squares of the deviations underflow
  to \<open>0\<close>, the guard of line 452 fires, and the result is \<open>0\<close>.
\<close>

lemma correlation_underflow:
  "calculateCorrelation [Fin (1 / 4149515568880992958512407863691161151012446232242436899995657329690652811412908146399707048947103794288197886611300789182395151075411775307886874834113963687061181803401509523685376), Fin (1 / 2074757784440496479256203931845580575506223116121218449997828664845326405706454073199853524473551897144098943305650394591197575537705887653943437417056981843530590901700754761842688)]
     [Fin (1 / 4149515568880992958512407863691161151012446232242436899995657329690652811412908146399707048947103794288197886611300789182395151075411775307886874834113963687061181803401509523685376), Fin (1 / 2074757784440496479256203931845580575506223116121218449997828664845326405706454073199853524473551897144098943305650394591197575537705887653943437417056981843530590901700754761842688)] =
   Return (Fin 0)"
proof -
  have d1: "fadd (Fin 0) (Fin (1 / 4149515568880992958512407863691161151012446232242436899995657329690652811412908146399707048947103794288197886611300789182395151075411775307886874834113963687061181803401509523685376)) = Fin (1 / 4149515568880992958512407863691161151012446232242436899995657329690652811412908146399707048947103794288197886611300789182395151075411775307886874834113963687061181803401509523685376)"
    by (rule fadd_evalI [where e = "- 600" and n = "4503599627370496" and q = "1 / 18687756769780511615554238896948393266762663965690101475652372553315431084886742575128218875155953253493318900013442692344580934538753794040842900765582189315080170186179645235539452691442089066496"])
       (simp_all add: power_int_minus divide_simps round_half_even_def Let_def)
  have d2: "fadd (Fin (1 / 4149515568880992958512407863691161151012446232242436899995657329690652811412908146399707048947103794288197886611300789182395151075411775307886874834113963687061181803401509523685376)) (Fin (1 / 2074757784440496479256203931845580575506223116121218449997828664845326405706454073199853524473551897144098943305650394591197575537705887653943437417056981843530590901700754761842688)) = Fin (3 / 4149515568880992958512407863691161151012446232242436899995657329690652811412908146399707048947103794288197886611300789182395151075411775307886874834113963687061181803401509523685376)"
    by (rule fadd_evalI [where e = "- 599" and n = "6755399441055744" and q = "1 / 9343878384890255807777119448474196633381331982845050737826186276657715542443371287564109437577976626746659450006721346172290467269376897020421450382791094657540085093089822617769726345721044533248"])
       (simp_all add: power_int_minus divide_simps round_half_even_def Let_def)
  have d3: "fdiv (Fin (3 / 4149515568880992958512407863691161151012446232242436899995657329690652811412908146399707048947103794288197886611300789182395151075411775307886874834113963687061181803401509523685376)) (Fin 2) = Fin (3 / 8299031137761985917024815727382322302024892464484873799991314659381305622825816292799414097894207588576395773222601578364790302150823550615773749668227927374122363606803019047370752)"
    by (rule fdiv_evalI [where e = "- 600" and n = "6755399441055744" and q = "1 / 18687756769780511615554238896948393266762663965690101475652372553315431084886742575128218875155953253493318900013442692344580934538753794040842900765582189315080170186179645235539452691442089066496"])
       (simp_all add: power_int_minus divide_simps round_half_even_def Let_def)
  have d4: "fsub (Fin (1 / 4149515568880992958512407863691161151012446232242436899995657329690652811412908146399707048947103794288197886611300789182395151075411775307886874834113963687061181803401509523685376)) (Fin (3 / 8299031137761985917024815727382322302024892464484873799991314659381305622825816292799414097894207588576395773222601578364790302150823550615773749668227927374122363606803019047370752)) = Fin (- (1 / 8299031137761985917024815727382322302024892464484873799991314659381305622825816292799414097894207588576395773222601578364790302150823550615773749668227927374122363606803019047370752))"
    by (rule fsub_evalI [where e = "- 601" and n = "- 4503599627370496" and q = "1 / 37375513539561023231108477793896786533525327931380202951304745106630862169773485150256437750311906506986637800026885384689161869077507588081685801531164378630160340372359290471078905382884178132992"])
       (simp_all add: power_int_minus divide_simps round_half_even_def Let_def)
  have d5: "fmul (Fin (- (1 / 8299031137761985917024815727382322302024892464484873799991314659381305622825816292799414097894207588576395773222601578364790302150823550615773749668227927374122363606803019047370752))) (Fin (- (1 / 8299031137761985917024815727382322302024892464484873799991314659381305622825816292799414097894207588576395773222601578364790302150823550615773749668227927374122363606803019047370752))) = Fin 0"
    by (rule fmul_tinyI [where n = "0" and q = "1 / 202402253307310618352495346718917307049556649764142118356901358027430339567995346891960383701437124495187077864316811911389808737385793476867013399940738509921517424276566361364466907742093216341239767678472745068562007483424692698618103355649159556340810056512358769552333414615230502532186327508646006263307707741093494784"])
       (simp_all add: power_int_minus divide_simps round_half_even_def Let_def)
  have d6: "fadd (Fin 0) (Fin 0) = Fin 0"
    by (rule fadd_zeroI) simp_all
  have d7: "fsub (Fin (1 / 2074757784440496479256203931845580575506223116121218449997828664845326405706454073199853524473551897144098943305650394591197575537705887653943437417056981843530590901700754761842688)) (Fin (3 / 8299031137761985917024815727382322302024892464484873799991314659381305622825816292799414097894207588576395773222601578364790302150823550615773749668227927374122363606803019047370752)) = Fin (1 / 8299031137761985917024815727382322302024892464484873799991314659381305622825816292799414097894207588576395773222601578364790302150823550615773749668227927374122363606803019047370752)"
    by (rule fsub_evalI [where e = "- 601" and n = "4503599627370496" and q = "1 / 37375513539561023231108477793896786533525327931380202951304745106630862169773485150256437750311906506986637800026885384689161869077507588081685801531164378630160340372359290471078905382884178132992"])
       (simp_all add: power_int_minus divide_simps round_half_even_def Let_def)
  have d8: "fmul (Fin (1 / 8299031137761985917024815727382322302024892464484873799991314659381305622825816292799414097894207588576395773222601578364790302150823550615773749668227927374122363606803019047370752)) (Fin (1 / 8299031137761985917024815727382322302024892464484873799991314659381305622825816292799414097894207588576395773222601578364790302150823550615773749668227927374122363606803019047370752)) = Fin 0"
    by (rule fmul_tinyI [where n = "0" and q = "1 / 202402253307310618352495346718917307049556649764142118356901358027430339567995346891960383701437124495187077864316811911389808737385793476867013399940738509921517424276566361364466907742093216341239767678472745068562007483424692698618103355649159556340810056512358769552333414615230502532186327508646006263307707741093494784"])
       (simp_all add: power_int_minus divide_simps round_half_even_def Let_def)
  show ?thesis
    unfolding calculateCorrelation_2 Let_def
    by (simp only: d1 d2 d3 d4 d5 d6 d7 d8) simp
qed

text \<open>
  The sum of squared deviations that the loop computes for \<open>[1, 2, 4]\<close>.
\<close>

lemma squaredDeviations_1_2_4:
  "squaredDeviations [Fin 1, Fin 2, Fin 4] =
   Fin (2627099782632789 / 562949953421312)"
proof -
  have s1: "fadd (Fin 0) (Fin 1) = Fin 1"
    by (rule fadd_evalI [where e = "0" and n = "4503599627370496" and q = "1 / 4503599627370496"])
       (simp_all add: power_int_minus divide_simps round_half_even_def Let_def)
  have s2: "fadd (Fin 1) (Fin 2) = Fin 3"
    by (rule fadd_evalI [where e = "1" and n = "6755399441055744" and q = "1 / 2251799813685248"])
       (simp_all add: power_int_minus divide_simps round_half_even_def Let_def)
  have s3: "fadd (Fin 3) (Fin 4) = Fin 7"
    by (rule fadd_evalI [where e = "2" and n = "7881299347898368" and q = "1 / 1125899906842624"])
       (simp_all add: power_int_minus divide_simps round_half_even_def Let_def)
  have s4: "fdiv (Fin 7) (Fin 3) = Fin (5254199565265579 / 2251799813685248)"
    by (rule fdiv_evalI [where e = "1" and n = "5254199565265579" and q = "1 / 2251799813685248"])
       (simp_all add: power_int_minus divide_simps round_half_even_def Let_def)
  have s5: "fsub (Fin 1) (Fin (5254199565265579 / 2251799813685248)) = Fin (- (3002399751580331 / 2251799813685248))"
    by (rule fsub_evalI [where e = "0" and n = "- 6004799503160662" and q = "1 / 4503599627370496"])
       (simp_all add: power_int_minus divide_simps round_half_even_def Let_def)
  have s6: "fmul (Fin (- (3002399751580331 / 2251799813685248))) (Fin (- (3002399751580331 / 2251799813685248))) = Fin (4003199668773775 / 2251799813685248)"
    by (rule fmul_evalI [where e = "0" and n = "8006399337547550" and q = "1 / 4503599627370496"])
       (simp_all add: power_int_minus divide_simps round_half_even_def Let_def)
  have s7: "fadd (Fin 0) (Fin (4003199668773775 / 2251799813685248)) = Fin (4003199668773775 / 2251799813685248)"
    by (rule fadd_evalI [where e = "0" and n = "8006399337547550" and q = "1 / 4503599627370496"])
       (simp_all add: power_int_minus divide_simps round_half_even_def Let_def)
  have s8: "fsub (Fin 2) (Fin (5254199565265579 / 2251799813685248)) = Fin (- (750599937895083 / 2251799813685248))"
    by (rule fsub_evalI [where e = "- 2" and n = "- 6004799503160664" and q = "1 / 18014398509481984"])
       (simp_all add: power_int_minus divide_simps round_half_even_def Let_def)
  have s9: "fmul (Fin (- (750599937895083 / 2251799813685248))) (Fin (- (750599937895083 / 2251799813685248))) = Fin (2001599834386889 / 18014398509481984)"
    by (rule fmul_evalI [where e = "- 4" and n = "8006399337547556" and q = "1 / 72057594037927936"])
       (simp_all add: power_int_minus divide_simps round_half_even_def Let_def)
  have s10: "fadd (Fin (4003199668773775 / 2251799813685248)) (Fin (2001599834386889 / 18014398509481984)) = Fin (531674956009017 / 281474976710656)"
    by (rule fadd_evalI [where e = "0" and n = "8506799296144272" and q = "1 / 4503599627370496"])
       (simp_all add: power_int_minus divide_simps round_half_even_def Let_def)
  have s11: "fsub (Fin 4) (Fin (5254199565265579 / 2251799813685248)) = Fin (3752999689475413 / 2251799813685248)"
    by (rule fsub_evalI [where e = "0" and n = "7505999378950826" and q = "1 / 4503599627370496"])
       (simp_all add: power_int_minus divide_simps round_half_even_def Let_def)
  have s12: "fmul (Fin (3752999689475413 / 2251799813685248)) (Fin (3752999689475413 / 2251799813685248)) = Fin (6254999482459021 / 2251799813685248)"
    by (rule fmul_evalI [where e = "1" and n = "6254999482459021" and q = "1 / 2251799813685248"])
       (simp_all add: power_int_minus divide_simps round_half_even_def Let_def)
  have s13: "fadd (Fin (531674956009017 / 281474976710656)) (Fin (6254999482459021 / 2251799813685248)) = Fin (2627099782632789 / 562949953421312)"
    by (rule fadd_evalI [where e = "2" and n = "5254199565265578" and q = "1 / 1125899906842624"])
       (simp_all add: power_int_minus divide_simps round_half_even_def Let_def)
  show ?thesis
    unfolding squaredDeviations_3 Let_def
    by (simp only: s1 s2 s3 s4 s5 s6 s7 s8 s9 s10 s11 s12 s13)
qed

text \<open>A product beyond the largest double is an infinity.\<close>

lemma fl_overflowI:
  assumes "2 powi e \<le> \<bar>x\<bar>" and "\<bar>x\<bar> < 2 powi (e + 1)"
    and "q = 2 powi (max e (- 1022) - 52)"
    and "round_half_even (x / q) = n"
    and "2 ^ 1024 \<le> \<bar>of_int n * q\<bar>" and "0 < x"
  shows "fl x = PosInfinity"
proof -
  have x: "x \<noteq> 0" using assms(6) by simp
  have e: "\<lfloor>log 2 \<bar>x\<bar>\<rfloor> = e" using assms(1,2) by (rule floor_log2_eqI)
  show ?thesis
    unfolding fl_def Let_def e assms(3) [symmetric] assms(4) using x assms(5,6) by simp
qed

lemma fmul_overflowI:
  assumes "2 powi e \<le> \<bar>a * b\<bar>" and "\<bar>a * b\<bar> < 2 powi (e + 1)"
    and "q = 2 powi (max e (- 1022) - 52)"
    and "round_half_even ((a * b) / q) = n"
    and "2 ^ 1024 \<le> \<bar>of_int n * q\<bar>" and "0 < a * b"
  shows "fmul (Fin a) (Fin b) = PosInfinity"
  unfolding fmul.simps using assms by (rule fl_overflowI)

text \<open>
  The slice \<open>[2\<^sup>6\<^sup>0\<^sup>0, - 2\<^sup>6\<^sup>0\<^sup>0]\<close> against itself: the squares of the deviations overflow, the
  three sums are infinite, and the quotient of two infinities is \<^verbatim>\<open>NaN\<close>.
\<close>

lemma correlation_overflow:
  "calculateCorrelation [Fin 4149515568880992958512407863691161151012446232242436899995657329690652811412908146399707048947103794288197886611300789182395151075411775307886874834113963687061181803401509523685376, Fin (- 4149515568880992958512407863691161151012446232242436899995657329690652811412908146399707048947103794288197886611300789182395151075411775307886874834113963687061181803401509523685376)]
     [Fin 4149515568880992958512407863691161151012446232242436899995657329690652811412908146399707048947103794288197886611300789182395151075411775307886874834113963687061181803401509523685376, Fin (- 4149515568880992958512407863691161151012446232242436899995657329690652811412908146399707048947103794288197886611300789182395151075411775307886874834113963687061181803401509523685376)] =
   Return NaN"
proof -
  have o1: "fadd (Fin 0) (Fin 4149515568880992958512407863691161151012446232242436899995657329690652811412908146399707048947103794288197886611300789182395151075411775307886874834113963687061181803401509523685376) = Fin 4149515568880992958512407863691161151012446232242436899995657329690652811412908146399707048947103794288197886611300789182395151075411775307886874834113963687061181803401509523685376"
    by (rule fadd_evalI [where e = "600" and n = "4503599627370496" and q = "921377545122446619199598286374089084696513969828232526459034741270904336521520715841339532514076847544303802497745079321233052888165232576308943909041185557531590656"])
       (simp_all add: power_int_minus divide_simps round_half_even_def Let_def)
  have o2: "fadd (Fin 4149515568880992958512407863691161151012446232242436899995657329690652811412908146399707048947103794288197886611300789182395151075411775307886874834113963687061181803401509523685376) (Fin (- 4149515568880992958512407863691161151012446232242436899995657329690652811412908146399707048947103794288197886611300789182395151075411775307886874834113963687061181803401509523685376)) = Fin 0"
    by (rule fadd_zeroI) simp_all
  have o3: "fdiv (Fin 0) (Fin 2) = Fin 0"
    by (rule fdiv_zeroI) simp_all
  have o4: "fsub (Fin 4149515568880992958512407863691161151012446232242436899995657329690652811412908146399707048947103794288197886611300789182395151075411775307886874834113963687061181803401509523685376) (Fin 0) = Fin 4149515568880992958512407863691161151012446232242436899995657329690652811412908146399707048947103794288197886611300789182395151075411775307886874834113963687061181803401509523685376"
    by (rule fsub_evalI [where e = "600" and n = "4503599627370496" and q = "921377545122446619199598286374089084696513969828232526459034741270904336521520715841339532514076847544303802497745079321233052888165232576308943909041185557531590656"])
       (simp_all add: power_int_minus divide_simps round_half_even_def Let_def)
  have o5: "fsub (Fin (- 4149515568880992958512407863691161151012446232242436899995657329690652811412908146399707048947103794288197886611300789182395151075411775307886874834113963687061181803401509523685376)) (Fin 0) = Fin (- 4149515568880992958512407863691161151012446232242436899995657329690652811412908146399707048947103794288197886611300789182395151075411775307886874834113963687061181803401509523685376)"
    by (rule fsub_evalI [where e = "600" and n = "- 4503599627370496" and q = "921377545122446619199598286374089084696513969828232526459034741270904336521520715841339532514076847544303802497745079321233052888165232576308943909041185557531590656"])
       (simp_all add: power_int_minus divide_simps round_half_even_def Let_def)
  have p1: "fmul (Fin 4149515568880992958512407863691161151012446232242436899995657329690652811412908146399707048947103794288197886611300789182395151075411775307886874834113963687061181803401509523685376) (Fin 4149515568880992958512407863691161151012446232242436899995657329690652811412908146399707048947103794288197886611300789182395151075411775307886874834113963687061181803401509523685376) = PosInfinity"
    by (rule fmul_overflowI [where e = "1200" and n = "4503599627370496" and q = "3823270468302941842002024607450357925570988358965049940637212348182481112255747395111678996134873237019740281679594315409028688022189759415645851055638164105379029560717538878319361449813497149975753300758864245130507361129677106161815508259768751427806240123117172741976550162719728249882065356785620452341409139573052158954042382400588565446656"])
       (simp_all add: power_int_minus divide_simps round_half_even_def Let_def)
  have p2: "fmul (Fin (- 4149515568880992958512407863691161151012446232242436899995657329690652811412908146399707048947103794288197886611300789182395151075411775307886874834113963687061181803401509523685376)) (Fin (- 4149515568880992958512407863691161151012446232242436899995657329690652811412908146399707048947103794288197886611300789182395151075411775307886874834113963687061181803401509523685376)) = PosInfinity"
    by (rule fmul_overflowI [where e = "1200" and n = "4503599627370496" and q = "3823270468302941842002024607450357925570988358965049940637212348182481112255747395111678996134873237019740281679594315409028688022189759415645851055638164105379029560717538878319361449813497149975753300758864245130507361129677106161815508259768751427806240123117172741976550162719728249882065356785620452341409139573052158954042382400588565446656"])
       (simp_all add: power_int_minus divide_simps round_half_even_def Let_def)
  show ?thesis
    unfolding calculateCorrelation_2 Let_def
    by (simp only: o1 o2 o3 o4 o5 p1 p2) (simp add: infinity_of_def)
qed

text \<open>The literal \<^verbatim>\<open>0.1\<close> denotes the double nearest to a tenth.\<close>

lemma fl_tenth: "fl (1 / 10) = Fin (3602879701896397 / 36028797018963968)"
  by (rule fl_evalI [where e = "- 4" and n = "7205759403792794" and q = "1 / 72057594037927936"])
     (simp_all add: power_int_minus divide_simps round_half_even_def Let_def)

text \<open>The mean computed for \<open>[5, 5, 5]\<close> is \<open>5\<close>.\<close>

lemma computedMean_5_5_5: "computedMean [Fin 5, Fin 5, Fin 5] = Fin 5"
proof -
  have m1: "fadd (Fin 0) (Fin 5) = Fin 5"
    by (rule fadd_evalI [where e = "2" and n = "5629499534213120" and q = "1 / 1125899906842624"])
       (simp_all add: power_int_minus divide_simps round_half_even_def Let_def)
  have m2: "fadd (Fin 5) (Fin 5) = Fin 10"
    by (rule fadd_evalI [where e = "3" and n = "5629499534213120" and q = "1 / 562949953421312"])
       (simp_all add: power_int_minus divide_simps round_half_even_def Let_def)
  have m3: "fadd (Fin 10) (Fin 5) = Fin 15"
    by (rule fadd_evalI [where e = "3" and n = "8444249301319680" and q = "1 / 562949953421312"])
       (simp_all add: power_int_minus divide_simps round_half_even_def Let_def)
  have m4: "fdiv (Fin 15) (Fin 3) = Fin 5"
    by (rule fdiv_evalI [where e = "2" and n = "5629499534213120" and q = "1 / 1125899906842624"])
       (simp_all add: power_int_minus divide_simps round_half_even_def Let_def)
  have u: "computedMean [x0, x1, x2] = fdiv (fadd (fadd (fadd (Fin 0) x0) x1) x2) (Fin 3)"
    for x0 x1 x2
    by (simp add: computedMean_def)
  show ?thesis
    unfolding u by (simp only: m1 m2 m3 m4)
qed




text \<open>
  Claim C5, as amended. Called with slices of different lengths, or with empty slices,
  \<^verbatim>\<open>calculateCorrelation\<close> returns \<open>0\<close>: the guard of line 434 returns, it raises no
  error.
\<close>

theorem correlation_bad_range_returns_zero:
  assumes "length x \<noteq> length y \<or> x = []"
  shows "calculateCorrelation x y = Return (Fin 0) \<and>
         (\<forall>e. calculateCorrelation x y \<noteq> Throw e)"
  using calculateCorrelation_guard [OF assms] by simp

theorem correlation_bad_range_returns_zero_witness:
  "length [Fin 1, Fin 2, Fin 3] \<noteq> length [Fin 4] \<and>
   calculateCorrelation [Fin 1, Fin 2, Fin 3] [Fin 4] = Return (Fin 0)"
  using correlation_bad_range_returns_zero [of "[Fin 1, Fin 2, Fin 3]" "[Fin 4]"] by simp

text \<open>
  The claim as the specification states it, a failure on mismatched or empty slices, is
  false: on \<open>[1, 2]\<close> against \<open>[1]\<close>, and on two empty slices, the call returns \<open>0\<close>.
\<close>

theorem correlation_fails_fast_counterexample:
  "calculateCorrelation [Fin 1, Fin 2] [Fin 1] = Return (Fin 0) \<and>
   calculateCorrelation [] [] = Return (Fin 0) \<and>
   calculateCorrelation [Fin 1, Fin 2] [Fin 1] \<noteq> Throw (JsError ''InvalidRangeError'' []) \<and>
   calculateCorrelation [] [] \<noteq> Throw (JsError ''InvalidRangeError'' [])"
  by (simp add: calculateCorrelation_def)

text \<open>
  Claim C8 as the specification states it is false in binary64. The slice
  \<open>[2\<^sup>-\<^sup>6\<^sup>0\<^sup>0, 2\<^sup>-\<^sup>5\<^sup>9\<^sup>9]\<close> is finite and not constant, and its correlation with itself is
  \<open>0\<close>; that of \<open>[2\<^sup>6\<^sup>0\<^sup>0, - 2\<^sup>6\<^sup>0\<^sup>0]\<close> with itself is \<^verbatim>\<open>NaN\<close>. The constant slice of the
  double \<^verbatim>\<open>0.1\<close> has the correlation \<open>1\<close>, not \<open>0\<close>, with the slice of the same length
  that is itself.
\<close>

theorem correlation_self_counterexample:
  "calculateCorrelation [Fin (1 / 2 ^ 600), Fin (1 / 2 ^ 599)]
     [Fin (1 / 2 ^ 600), Fin (1 / 2 ^ 599)] = Return (Fin 0) \<and>
   (1 / 2 ^ 600 :: real) \<noteq> 1 / 2 ^ 599 \<and>
   calculateCorrelation [Fin (2 ^ 600), Fin (- (2 ^ 600))]
     [Fin (2 ^ 600), Fin (- (2 ^ 600))] = Return NaN \<and>
   fl (1 / 10) = Fin (3602879701896397 / 36028797018963968) \<and>
   calculateCorrelation
     [Fin (3602879701896397 / 36028797018963968), Fin (3602879701896397 / 36028797018963968),
      Fin (3602879701896397 / 36028797018963968)]
     [Fin (3602879701896397 / 36028797018963968), Fin (3602879701896397 / 36028797018963968),
      Fin (3602879701896397 / 36028797018963968)] = Return (Fin 1)"
proof -
  have 1: "calculateCorrelation [Fin (1 / 2 ^ 600), Fin (1 / 2 ^ 599)]
     [Fin (1 / 2 ^ 600), Fin (1 / 2 ^ 599)] = Return (Fin 0)"
    using correlation_underflow by simp
  have 2: "(1 / 2 ^ 600 :: real) \<noteq> 1 / 2 ^ 599" by simp
  have 3: "calculateCorrelation [Fin (2 ^ 600), Fin (- (2 ^ 600))]
     [Fin (2 ^ 600), Fin (- (2 ^ 600))] = Return NaN"
    using correlation_overflow by simp
  from 1 2 3 fl_tenth correlation_constant_self show ?thesis by (intro conjI)
qed

text \<open>
  Claim C8, as amended. Let \<open>x\<close> be a nonempty slice. When the sum \<open>v\<close> of squared
  deviations computed for \<open>x\<close> is finite and lies between \<open>2\<^sup>-\<^sup>5\<^sup>1\<^sup>1\<close> and \<open>2\<^sup>5\<^sup>1\<^sup>1\<close>, the
  correlation of \<open>x\<close> with itself is exactly \<open>1\<close>. When that sum is zero the correlation of
  \<open>x\<close> with itself is \<open>0\<close>. When all entries of \<open>x\<close> equal the mean computed for it, the
  correlation of \<open>x\<close> with any slice of the same length, on either side, is \<open>0\<close>.
\<close>

theorem correlation_self_is_one:
  assumes "x \<noteq> []"
  shows "(\<forall>v. squaredDeviations x = Fin v \<and> 2 powi (- 511) \<le> v \<and> v < 2 powi 511 \<longrightarrow>
            calculateCorrelation x x = Return (Fin 1)) \<and>
         (squaredDeviations x = Fin 0 \<longrightarrow> calculateCorrelation x x = Return (Fin 0)) \<and>
         (at_computed_mean x \<and> length y = length x \<longrightarrow>
            calculateCorrelation x y = Return (Fin 0) \<and>
            calculateCorrelation y x = Return (Fin 0))"
proof -
  have 1: "\<forall>v. squaredDeviations x = Fin v \<and> 2 powi (- 511) \<le> v \<and> v < 2 powi 511 \<longrightarrow>
            calculateCorrelation x x = Return (Fin 1)"
    using corr_self_one [OF assms] by blast
  have 2: "squaredDeviations x = Fin 0 \<longrightarrow> calculateCorrelation x x = Return (Fin 0)"
    using assms by (simp add: calculateCorrelation_unfold)
  have 3: "at_computed_mean x \<and> length y = length x \<longrightarrow>
            calculateCorrelation x y = Return (Fin 0) \<and>
            calculateCorrelation y x = Return (Fin 0)"
  proof
    assume a: "at_computed_mean x \<and> length y = length x"
    then have d: "squaredDeviations x = Fin 0" by (simp add: squaredDeviations_at_mean)
    have l: "length x = length y" "length y = length x" using a by simp_all
    have y: "y \<noteq> []" using assms l by auto
    show "calculateCorrelation x y = Return (Fin 0) \<and>
          calculateCorrelation y x = Return (Fin 0)"
      using d by (simp add: calculateCorrelation_unfold [OF l(1) assms]
          calculateCorrelation_unfold [OF l(2) y])
  qed
  from 1 2 3 show ?thesis by blast
qed

theorem correlation_self_is_one_witness:
  "[Fin 1, Fin 2, Fin 4] \<noteq> [] \<and>
   squaredDeviations [Fin 1, Fin 2, Fin 4] = Fin (2627099782632789 / 562949953421312) \<and>
   calculateCorrelation [Fin 1, Fin 2, Fin 4] [Fin 1, Fin 2, Fin 4] = Return (Fin 1) \<and>
   at_computed_mean [Fin 5, Fin 5, Fin 5] \<and>
   calculateCorrelation [Fin 5, Fin 5, Fin 5] [Fin 1, Fin 2, Fin 4] = Return (Fin 0) \<and>
   calculateCorrelation [Fin 1, Fin 2, Fin 4] [Fin 5, Fin 5, Fin 5] = Return (Fin 0)"
proof -
  have a: "[Fin 1, Fin 2, Fin 4] \<noteq> []" and b: "[Fin 5, Fin 5, Fin 5] \<noteq> []" by simp_all
  have lo: "2 powi (- 511) \<le> (2627099782632789 / 562949953421312 :: real)"
  proof -
    have "(2::real) powi (- 511) \<le> 2 powi 0" by (intro power_int_increasing) simp_all
    then show ?thesis by simp
  qed
  have hi: "(2627099782632789 / 562949953421312 :: real) < 2 powi 511"
  proof -
    have "(2627099782632789 / 562949953421312 :: real) < 2 powi 3" by simp
    also have "\<dots> \<le> 2 powi 511" by (intro power_int_increasing) simp_all
    finally show ?thesis .
  qed
  from correlation_self_is_one [OF a] squaredDeviations_1_2_4 lo hi
  have 1: "calculateCorrelation [Fin 1, Fin 2, Fin 4] [Fin 1, Fin 2, Fin 4] = Return (Fin 1)"
    by blast
  have m: "at_computed_mean [Fin 5, Fin 5, Fin 5]"
    unfolding at_computed_mean_def computedMean_5_5_5 by simp
  have l: "length [Fin 1, Fin 2, Fin 4] = length [Fin 5, Fin 5, Fin 5]" by simp
  from correlation_self_is_one [OF b, of "[Fin 1, Fin 2, Fin 4]"] m l
  have 2: "calculateCorrelation [Fin 5, Fin 5, Fin 5] [Fin 1, Fin 2, Fin 4] = Return (Fin 0) \<and>
           calculateCorrelation [Fin 1, Fin 2, Fin 4] [Fin 5, Fin 5, Fin 5] = Return (Fin 0)"
    by blast
  from a squaredDeviations_1_2_4 1 m 2 show ?thesis by blast
qed

text \<open>
  Claim C10. \<^verbatim>\<open>calculateCorrelation\<close> is total: on all arrays it returns a number and
  never throws; on slices of different lengths or of length zero the number returned is
  \<open>0\<close>, not \<^verbatim>\<open>NaN\<close>.
\<close>

theorem calculateCorrelation_total:
  "(\<exists>v. calculateCorrelation x y = Return v) \<and>
   (\<forall>e. calculateCorrelation x y \<noteq> Throw e) \<and>
   (length x \<noteq> length y \<or> length x = 0 \<longrightarrow>
      calculateCorrelation x y = Return (Fin 0) \<and> calculateCorrelation x y \<noteq> Return NaN)"
proof -
  from calculateCorrelation_returns [of x y] obtain v
    where v: "calculateCorrelation x y = Return v" by blast
  have 3: "length x \<noteq> length y \<or> length x = 0 \<longrightarrow>
      calculateCorrelation x y = Return (Fin 0) \<and> calculateCorrelation x y \<noteq> Return NaN"
    using calculateCorrelation_guard [of x y] by auto
  from v 3 show ?thesis by simp
qed

theorem calculateCorrelation_total_witness:
  "(\<exists>v. calculateCorrelation [Fin 3, Fin 1] [Fin 2, Fin 5] = Return v) \<and>
   length [Fin 1] \<noteq> length [Fin 2, Fin 5] \<and>
   calculateCorrelation [Fin 1] [Fin 2, Fin 5] = Return (Fin 0) \<and>
   length ([] :: double list) = 0 \<and> calculateCorrelation [] [] = Return (Fin 0)"
  using calculateCorrelation_total [of "[Fin 3, Fin 1]" "[Fin 2, Fin 5]"]
    calculateCorrelation_total [of "[Fin 1]" "[Fin 2, Fin 5]"]
    calculateCorrelation_total [of "[]" "[]"]
  by simp


section \<open>Properties of the extrema scan of generateMockData\<close>

lemma mock_loop_0: "mock_loop f n 0 = empty_data"
  by (simp add: mock_loop_def)

lemma mock_loop_Suc: "mock_loop f n (Suc m) = mock_body f n m (mock_loop f n m)"
  by (simp add: mock_loop_def)

lemma mock_body_series:
  "times_list (mock_body f n i d) = times_list d @ [f_time (f i)]"
  "pitchDeviation (mock_body f n i d) = pitchDeviation d @ [f_pitch (f i)]"
  "amplitudeDeviation (mock_body f n i d) = amplitudeDeviation d @ [f_ampDeviation (f i)]"
  "amplitude (mock_body f n i d) = amplitude d @ [f_amplitude (f i)]"
  by (simp_all add: mock_body_def Let_def)

lemma mock_loop_series:
  "times_list (mock_loop f n m) = map (\<lambda>i. f_time (f i)) [0..<m]"
  "pitchDeviation (mock_loop f n m) = map (\<lambda>i. f_pitch (f i)) [0..<m]"
  "amplitudeDeviation (mock_loop f n m) = map (\<lambda>i. f_ampDeviation (f i)) [0..<m]"
  "amplitude (mock_loop f n m) = map (\<lambda>i. f_amplitude (f i)) [0..<m]"
  by (induction m; simp add: mock_loop_0 mock_loop_Suc mock_body_series empty_data_def)+

lemma js_gt_undefined: "\<not> js_gt a None"
  by (simp add: js_gt_def split: option.split)

lemma js_lt_undefined: "\<not> js_lt a None"
  by (simp add: js_lt_def split: option.split)

lemma js_gt_not_lt: "js_gt a b \<Longrightarrow> \<not> js_lt a b"
  by (auto simp: js_gt_def js_lt_def split: option.splits)

lemma js_index_past_end: "int (length a) \<le> k \<Longrightarrow> js_index a k = None"
  by (simp add: js_index_def)

text \<open>
  In iteration \<open>i\<close> the array holds the frames \<open>0\<close> to \<open>i\<close>, so the read of
  \<^verbatim>\<open>pitchDeviation[i+1]\<close> is \<^verbatim>\<open>undefined\<close>, both comparisons with it are false, and
  nothing is pushed on \<^verbatim>\<open>peaks\<close> or \<^verbatim>\<open>troughs\<close>.
\<close>

lemma mock_body_no_extrema:
  assumes "length (pitchDeviation d) = i"
  shows "peaks (mock_body f n i d) = peaks d \<and> troughs (mock_body f n i d) = troughs d"
proof -
  have "js_index (pitchDeviation d @ [f_pitch (f i)]) (int i + 1) = None"
    using assms by (simp add: js_index_past_end)
  then show ?thesis
    by (simp add: mock_body_def Let_def js_gt_undefined js_lt_undefined)
qed

lemma mock_loop_no_extrema:
  "peaks (mock_loop f n m) = [] \<and> troughs (mock_loop f n m) = []"
proof (induction m)
  case 0
  show ?case by (simp add: mock_loop_0 empty_data_def)
next
  case (Suc m)
  have "length (pitchDeviation (mock_loop f n m)) = m"
    by (simp add: mock_loop_series)
  from mock_body_no_extrema [OF this] Suc show ?case
    by (simp add: mock_loop_Suc)
qed

lemma generateMockData_with_no_extrema:
  "peaks (generateMockData_with f n) = [] \<and> troughs (generateMockData_with f n) = [] \<and>
   oscillations (generateMockData_with f n) = 0"
  by (simp add: generateMockData_with_def Let_def mock_loop_no_extrema)

lemma generateMockData_with_pitch:
  "pitchDeviation (generateMockData_with f n) = map (\<lambda>i. f_pitch (f i)) [0..<n]"
  by (simp add: generateMockData_with_def Let_def mock_loop_series)

text \<open>
  What one iteration can do to the two index lists, whatever the read ahead yields:
  it pushes \<open>i\<close> on a list only for an interior \<open>i\<close>, on \<^verbatim>\<open>peaks\<close> only if
  \<^verbatim>\<open>pitchDeviation[i] > pitchDeviation[i-1]\<close>, on \<^verbatim>\<open>troughs\<close> only if
  \<^verbatim>\<open>pitchDeviation[i] < pitchDeviation[i-1]\<close>.
\<close>

lemma mock_body_cases:
  "(peaks (mock_body f n i d) = peaks d \<or>
      (peaks (mock_body f n i d) = peaks d @ [i] \<and> 0 < i \<and> Suc i < n \<and>
       js_gt (js_index (pitchDeviation d @ [f_pitch (f i)]) (int i))
             (js_index (pitchDeviation d @ [f_pitch (f i)]) (int i - 1)))) \<and>
   (troughs (mock_body f n i d) = troughs d \<or>
      (troughs (mock_body f n i d) = troughs d @ [i] \<and> 0 < i \<and> Suc i < n \<and>
       js_lt (js_index (pitchDeviation d @ [f_pitch (f i)]) (int i))
             (js_index (pitchDeviation d @ [f_pitch (f i)]) (int i - 1))))"
  by (simp add: mock_body_def Let_def)

lemma scan_inv_step:
  assumes "scan_inv n m d"
  shows "scan_inv n (Suc m) (mock_body f n m d)"
proof -
  let ?d' = "mock_body f n m d"
  let ?pd = "pitchDeviation d @ [f_pitch (f m)]"
  from assms have sp: "sorted_wrt (<) (peaks d)" and st: "sorted_wrt (<) (troughs d)"
    and bp: "\<forall>p \<in> set (peaks d). 0 < p \<and> p < m \<and> Suc p < n"
    and bt: "\<forall>p \<in> set (troughs d). 0 < p \<and> p < m \<and> Suc p < n"
    and dj: "set (peaks d) \<inter> set (troughs d) = {}"
    by (auto simp: scan_inv_def)
  from mock_body_cases [of f n m d]
  have P: "peaks ?d' = peaks d \<or>
      (peaks ?d' = peaks d @ [m] \<and> 0 < m \<and> Suc m < n \<and>
       js_gt (js_index ?pd (int m)) (js_index ?pd (int m - 1)))"
    and T: "troughs ?d' = troughs d \<or>
      (troughs ?d' = troughs d @ [m] \<and> 0 < m \<and> Suc m < n \<and>
       js_lt (js_index ?pd (int m)) (js_index ?pd (int m - 1)))"
    by blast+
  have 1: "sorted_wrt (<) (peaks ?d')"
    using P sp bp by (auto simp: sorted_wrt_append)
  have 2: "sorted_wrt (<) (troughs ?d')"
    using T st bt by (auto simp: sorted_wrt_append)
  have 3: "\<forall>p \<in> set (peaks ?d'). 0 < p \<and> p < Suc m \<and> Suc p < n"
    using P bp by (auto simp: less_Suc_eq)
  have 4: "\<forall>p \<in> set (troughs ?d'). 0 < p \<and> p < Suc m \<and> Suc p < n"
    using T bt by (auto simp: less_Suc_eq)
  have 5: "set (peaks ?d') \<inter> set (troughs ?d') = {}"
    using P T dj bp bt js_gt_not_lt [of "js_index ?pd (int m)" "js_index ?pd (int m - 1)"]
    by auto
  from 1 2 3 4 5 show ?thesis by (auto simp: scan_inv_def)
qed

lemma scan_inv_loop: "scan_inv n m (mock_loop f n m)"
proof (induction m)
  case 0
  show ?case by (simp add: mock_loop_0 scan_inv_def empty_data_def)
next
  case (Suc m)
  then show ?case by (simp add: mock_loop_Suc scan_inv_step)
qed

text \<open>
  Claim C1. The claim asks that an interior index be recorded as a peak exactly when it
  is a strict local maximum of magnitude at least the threshold, and likewise for
  troughs. The scan of \<^verbatim>\<open>generateMockData\<close> does not do so: on the pitch samples
  \<open>[0, 20, 0]\<close> index \<open>1\<close> is a peak by the rule and is not recorded, on
  \<open>[0, -20, 0]\<close> index \<open>1\<close> is a trough by the rule and is not recorded, and the data
  the application generates has no peak, no trough and an oscillation count of \<open>0\<close>.
\<close>

theorem scan_misses_extrema:
  "spec_peak [0, 20, 0] 10 1 \<and>
   pitchDeviation (generateMockData_with (frames_of_pitch [0, 20, 0]) 3) = [0, 20, 0] \<and>
   peaks (generateMockData_with (frames_of_pitch [0, 20, 0]) 3) = [] \<and>
   spec_trough [0, - 20, 0] 10 1 \<and>
   pitchDeviation (generateMockData_with (frames_of_pitch [0, - 20, 0]) 3) = [0, - 20, 0] \<and>
   troughs (generateMockData_with (frames_of_pitch [0, - 20, 0]) 3) = [] \<and>
   peaks generateMockData = [] \<and> troughs generateMockData = [] \<and>
   oscillations generateMockData = 0"
proof -
  have u: "[0..<3] = [0, 1, 2]" by (simp add: upt_rec)
  have "spec_peak [0, 20, 0] 10 1" and "spec_trough [0, - 20, 0] 10 1"
    by (simp_all add: spec_peak_def spec_trough_def)
  moreover have
    "pitchDeviation (generateMockData_with (frames_of_pitch [0, 20, 0]) 3) = [0, 20, 0]"
    "pitchDeviation (generateMockData_with (frames_of_pitch [0, - 20, 0]) 3) = [0, - 20, 0]"
    by (simp_all add: generateMockData_with_pitch u frames_of_pitch_def)
  ultimately show ?thesis
    by (simp add: generateMockData_with_no_extrema generateMockData_def)
qed

text \<open>
  Claim C7. For every sequence of frames and every number \<open>N\<close> of them, the index
  lists that \<^verbatim>\<open>generateMockData\<close> produces are strictly increasing, share no index, and
  hold neither \<open>0\<close> nor \<open>N - 1\<close>; the pitch-deviation series they refer to has the \<open>N\<close>
  pitch values of the frames.
\<close>

theorem extrema_set_well_formed:
  "sorted_wrt (<) (peaks (generateMockData_with frame N)) \<and>
   sorted_wrt (<) (troughs (generateMockData_with frame N)) \<and>
   set (peaks (generateMockData_with frame N)) \<inter>
     set (troughs (generateMockData_with frame N)) = {} \<and>
   0 \<notin> set (peaks (generateMockData_with frame N)) \<and>
   N - 1 \<notin> set (peaks (generateMockData_with frame N)) \<and>
   0 \<notin> set (troughs (generateMockData_with frame N)) \<and>
   N - 1 \<notin> set (troughs (generateMockData_with frame N)) \<and>
   pitchDeviation (generateMockData_with frame N) = map (\<lambda>i. f_pitch (frame i)) [0..<N]"
proof -
  let ?d = "mock_loop frame N N"
  have inv: "scan_inv N N ?d" by (rule scan_inv_loop)
  then have b: "\<forall>p \<in> set (peaks ?d) \<union> set (troughs ?d). 0 < p \<and> Suc p < N"
    by (simp add: scan_inv_def)
  have z: "0 \<notin> set (peaks ?d)" "0 \<notin> set (troughs ?d)"
    using b by blast+
  have l1: "N - 1 \<notin> set (peaks ?d)"
  proof
    assume "N - 1 \<in> set (peaks ?d)"
    with b have "Suc (N - 1) < N" by blast
    then show False by simp
  qed
  have l2: "N - 1 \<notin> set (troughs ?d)"
  proof
    assume "N - 1 \<in> set (troughs ?d)"
    with b have "Suc (N - 1) < N" by blast
    then show False by simp
  qed
  have p: "peaks (generateMockData_with frame N) = peaks ?d"
    "troughs (generateMockData_with frame N) = troughs ?d"
    by (simp_all add: generateMockData_with_def Let_def)
  from inv have s: "sorted_wrt (<) (peaks ?d)" "sorted_wrt (<) (troughs ?d)"
    "set (peaks ?d) \<inter> set (troughs ?d) = {}"
    by (simp_all add: scan_inv_def)
  from s z l1 l2 generateMockData_with_pitch [of frame N] show ?thesis
    unfolding p by blast
qed

theorem extrema_set_well_formed_witness:
  "sorted_wrt (<) (peaks (generateMockData_with (frames_of_pitch [0, 20, 0, - 20, 0]) 5)) \<and>
   sorted_wrt (<) (troughs (generateMockData_with (frames_of_pitch [0, 20, 0, - 20, 0]) 5)) \<and>
   set (peaks (generateMockData_with (frames_of_pitch [0, 20, 0, - 20, 0]) 5)) \<inter>
     set (troughs (generateMockData_with (frames_of_pitch [0, 20, 0, - 20, 0]) 5)) = {} \<and>
   0 \<notin> set (peaks (generateMockData_with (frames_of_pitch [0, 20, 0, - 20, 0]) 5)) \<and>
   4 \<notin> set (peaks (generateMockData_with (frames_of_pitch [0, 20, 0, - 20, 0]) 5)) \<and>
   0 \<notin> set (troughs (generateMockData_with (frames_of_pitch [0, 20, 0, - 20, 0]) 5)) \<and>
   4 \<notin> set (troughs (generateMockData_with (frames_of_pitch [0, 20, 0, - 20, 0]) 5))"
  using extrema_set_well_formed [of "frames_of_pitch [0, 20, 0, - 20, 0]" 5] by simp


section \<open>Properties of the windowed renderer\<close>

lemma findIndex_from_result:
  assumes "0 \<le> k"
  shows "(findIndex_from p a k = - 1 \<and> (\<forall>v \<in> set a. \<not> p v)) \<or>
   (k \<le> findIndex_from p a k \<and> findIndex_from p a k < k + int (length a) \<and>
    p (a ! nat (findIndex_from p a k - k)) \<and>
    (\<forall>j < nat (findIndex_from p a k - k). \<not> p (a ! j)))"
  using assms
proof (induction a arbitrary: k)
  case Nil
  then show ?case by simp
next
  case (Cons v vs)
  show ?case
  proof (cases "p v")
    case True
    then show ?thesis using Cons.prems by simp
  next
    case False
    from Cons.IH [of "k + 1"] Cons.prems
    consider (none) "findIndex_from p vs (k + 1) = - 1" "\<forall>v \<in> set vs. \<not> p v"
      | (some) "k + 1 \<le> findIndex_from p vs (k + 1)"
          "findIndex_from p vs (k + 1) < k + 1 + int (length vs)"
          "p (vs ! nat (findIndex_from p vs (k + 1) - (k + 1)))"
          "\<forall>j < nat (findIndex_from p vs (k + 1) - (k + 1)). \<not> p (vs ! j)"
      by fastforce
    then show ?thesis
    proof cases
      case none
      then show ?thesis using False by simp
    next
      case some
      let ?r = "findIndex_from p vs (k + 1)"
      have eq: "nat (?r - k) = Suc (nat (?r - (k + 1)))" using some(1) by simp
      have "\<forall>j < nat (?r - k). \<not> p ((v # vs) ! j)"
        using some(4) False unfolding eq by (auto simp: less_Suc_eq_0_disj)
      then show ?thesis using False some eq by simp
    qed
  qed
qed

lemma findIndex_result:
  "(findIndex p a = - 1 \<and> (\<forall>v \<in> set a. \<not> p v)) \<or>
   (0 \<le> findIndex p a \<and> findIndex p a < int (length a) \<and>
    p (a ! nat (findIndex p a)) \<and> (\<forall>j < nat (findIndex p a). \<not> p (a ! j)))"
  using findIndex_from_result [of 0 p a] by (simp add: findIndex_def)


lemma findIndex_ge: "- 1 \<le> findIndex p a"
  using findIndex_result [of p a] by auto

lemma findIndex_threshold:
  fixes a :: real
  shows "(findIndex (\<lambda>v. v \<ge> a) ts = - 1 \<and> (\<forall>v \<in> set ts. v < a)) \<or>
    (0 \<le> findIndex (\<lambda>v. v \<ge> a) ts \<and>
     findIndex (\<lambda>v. v \<ge> a) ts < int (length ts) \<and>
     ts ! nat (findIndex (\<lambda>v. v \<ge> a) ts) \<ge> a \<and>
     (\<forall>j < nat (findIndex (\<lambda>v. v \<ge> a) ts). ts ! j < a))"
  using findIndex_result [of "\<lambda>v. v \<ge> a" ts] by (simp add: not_le)

lemma visibleWindow_fields:
  "timeStart (visibleWindow ts t w) = max 0 (t - w)"
  "timeEnd (visibleWindow ts t w) = t"
  "startIdx (visibleWindow ts t w) = findIndex (\<lambda>v. v \<ge> max 0 (t - w)) ts"
  "endIdx (visibleWindow ts t w) = findIndex (\<lambda>v. v \<ge> t) ts"
  by (simp_all add: visibleWindow_def Let_def del: max.bounded_iff)

text \<open>
  Claim C3. For every playback position \<open>t\<close> and window size \<open>w\<close> the visible window is
  \<open>[max 0 (t - w), t]\<close>; \<^verbatim>\<open>startIdx\<close> is the first index whose sample time is at least
  the start of the window, \<^verbatim>\<open>endIdx\<close> the first whose sample time is at least its end,
  and each is \<open>-1\<close> exactly when no sample time is that large. For a window size of \<open>5\<close>
  and a position of \<open>12\<close> the window is \<open>[7, 12]\<close>.
\<close>

theorem visible_window_resolution:
  "timeStart (visibleWindow ts t w) = max 0 (t - w) \<and>
   timeEnd (visibleWindow ts t w) = t \<and>
   ((startIdx (visibleWindow ts t w) = - 1 \<and> (\<forall>v \<in> set ts. v < max 0 (t - w))) \<or>
    (0 \<le> startIdx (visibleWindow ts t w) \<and>
     startIdx (visibleWindow ts t w) < int (length ts) \<and>
     ts ! nat (startIdx (visibleWindow ts t w)) \<ge> max 0 (t - w) \<and>
     (\<forall>j < nat (startIdx (visibleWindow ts t w)). ts ! j < max 0 (t - w)))) \<and>
   ((endIdx (visibleWindow ts t w) = - 1 \<and> (\<forall>v \<in> set ts. v < t)) \<or>
    (0 \<le> endIdx (visibleWindow ts t w) \<and>
     endIdx (visibleWindow ts t w) < int (length ts) \<and>
     ts ! nat (endIdx (visibleWindow ts t w)) \<ge> t \<and>
     (\<forall>j < nat (endIdx (visibleWindow ts t w)). ts ! j < t))) \<and>
   timeStart (visibleWindow ts 12 5) = 7 \<and> timeEnd (visibleWindow ts 12 5) = 12"
proof -
  have c: "timeStart (visibleWindow ts 12 5) = 7" "timeEnd (visibleWindow ts 12 5) = 12"
    by (simp_all add: visibleWindow_def Let_def)
  from findIndex_threshold [of "max 0 (t - w)" ts] findIndex_threshold [of t ts] c
  show ?thesis
    unfolding visibleWindow_fields by blast
qed

theorem visible_window_resolution_witness:
  "timeStart (visibleWindow [0, 3, 7, 9, 12, 15] 12 5) = 7 \<and>
   timeEnd (visibleWindow [0, 3, 7, 9, 12, 15] 12 5) = 12 \<and>
   startIdx (visibleWindow [0, 3, 7, 9, 12, 15] 12 5) = 2 \<and>
   endIdx (visibleWindow [0, 3, 7, 9, 12, 15] 12 5) = 4 \<and>
   startIdx (visibleWindow [0, 3] 12 5) = - 1 \<and>
   endIdx (visibleWindow [0, 3] 12 5) = - 1"
  using visible_window_resolution [of "[0, 3, 7, 9, 12, 15]" 12 5]
  by (simp add: visibleWindow_def findIndex_def)












section \<open>Properties of playback and drag\<close>

text \<open>Two of the three clock-driven writers leave the state alone during a drag.\<close>

lemma updateTime_dragging: "isDragging s \<Longrightarrow> updateTime s = s"
  by (simp add: updateTime_def)

lemma handleTimeUpdate_dragging: "isDragging s \<Longrightarrow> handleTimeUpdate s = s"
  by (simp add: handleTimeUpdate_def)

text \<open>The third one, \<^verbatim>\<open>handleEnded\<close>, has no such guard.\<close>

lemma handleEnded_fields:
  "currentTime (handleEnded s) = audioDuration s"
  "isPlaying (handleEnded s) = False"
  "isDragging (handleEnded s) = isDragging s"
  by (simp_all add: handleEnded_def)

lemma seekTo_result:
  assumes "audioMounted s" and "0 < duration s" and "0 \<le> t" and "t \<le> duration s"
  shows "seekTo t s = s\<lparr>audioCurrentTime := t, currentTime := t\<rparr>"
  using assms by (simp add: seekTo_def Let_def)

lemma audioClock_before_end:
  assumes "audioCurrentTime s + dt < audioDuration s" and "0 \<le> dt"
  shows "currentTime (audioClock dt s) = currentTime s"
    and "isDragging (audioClock dt s) = isDragging s"
    and "audioDuration (audioClock dt s) = audioDuration s"
    and "audioCurrentTime (audioClock dt s) \<le> audioCurrentTime s + dt"
  using assms by (simp_all add: audioClock_def Let_def)

text \<open>
  As long as the media does not end, a playback during a drag leaves \<^verbatim>\<open>currentTime\<close>
  where the drag put it.
\<close>

lemma playback_dragging:
  assumes "isDragging s" and "\<forall>dt \<in> set dts. 0 \<le> dt"
    and "audioCurrentTime s + sum_list dts < audioDuration s"
  shows "currentTime (playback dts s) = currentTime s \<and> isDragging (playback dts s)"
  using assms
proof (induction dts arbitrary: s)
  case Nil
  then show ?case by simp
next
  case (Cons dt dts)
  let ?s = "audioClock dt s"
  have dt: "0 \<le> dt" and rest: "\<forall>d \<in> set dts. 0 \<le> d" using Cons.prems(2) by simp_all
  have nn: "0 \<le> sum_list dts" using rest by (simp add: sum_list_nonneg)
  have b: "audioCurrentTime s + dt < audioDuration s" using Cons.prems(3) nn by simp
  have d: "isDragging ?s" using audioClock_before_end(2) [OF b dt] Cons.prems(1) by simp
  have u: "updateTime ?s = ?s" using d by (rule updateTime_dragging)
  have "audioCurrentTime ?s + sum_list dts \<le> audioCurrentTime s + dt + sum_list dts"
    using audioClock_before_end(4) [OF b dt] by simp
  also have "\<dots> < audioDuration s" using Cons.prems(3) by simp
  finally have e: "audioCurrentTime ?s + sum_list dts < audioDuration ?s"
    using audioClock_before_end(3) [OF b dt] by simp
  from Cons.IH [OF d rest e]
  have "currentTime (playback dts ?s) = currentTime ?s \<and> isDragging (playback dts ?s)" .
  then show ?case
    using audioClock_before_end(1) [OF b dt] u by simp
qed

text \<open>
  Claim C4. The playback of \<open>playing_state\<close>, an audio of \<open>20\<close> seconds playing at
  second \<open>3\<close>: the mouse goes down on the progress bar at three quarters of its width,
  which seeks to second \<open>15\<close>, and is held there. Two seconds later \<^verbatim>\<open>currentTime\<close> is
  still \<open>15\<close>. Four more seconds later the media has ended, and \<^verbatim>\<open>handleEnded\<close> has
  written \<open>20\<close> into \<^verbatim>\<open>currentTime\<close> although the drag is still active.
\<close>

theorem ended_overwrites_dragged_position:
  "isDragging (handleProgressDragStart (3 / 4) playing_state) \<and>
   currentTime (handleProgressDragStart (3 / 4) playing_state) = 15 \<and>
   currentTime (playback [2] (handleProgressDragStart (3 / 4) playing_state)) = 15 \<and>
   isDragging (playback [2, 4] (handleProgressDragStart (3 / 4) playing_state)) \<and>
   currentTime (playback [2, 4] (handleProgressDragStart (3 / 4) playing_state)) = 20"
proof -
  have s: "handleProgressDragStart (3 / 4) playing_state =
      playing_state\<lparr>isDragging := True, audioCurrentTime := 15, currentTime := 15\<rparr>"
    by (simp add: handleProgressDragStart_def seekTo_def playing_state_def initial_state_def
        Let_def)
  show ?thesis
    unfolding s
    by (simp add: playing_state_def initial_state_def audioClock_def updateTime_def
        handleEnded_def Let_def)
qed


section \<open>Properties of the analysis request\<close>

lemma generateMockData_lengths:
  "length (times_list generateMockData) = 2000"
  "length (pitchDeviation generateMockData) = 2000"
  "length (amplitudeDeviation generateMockData) = 2000"
  "length (amplitude generateMockData) = 2000"
  by (simp_all add: generateMockData_def generateMockData_with_def Let_def mock_loop_series)

lemma analyze_try_fails:
  assumes "\<forall>data. reply \<noteq> Ok data"
  shows "\<exists>error. analyze_try reply s = Throw error"
  using assms by (cases reply) (simp_all add: analyze_try_def)

lemma analyzeAudio_failure:
  assumes "analyze_try reply (analyzeAudio_begin s) = Throw error"
  shows "analyzeAudio reply s =
           s\<lparr>alerts := alerts s @
                [''Failed to analyze audio: '' @ error_toString error @
                 ''. Make sure the backend is running (uvicorn backend:app --reload)''],
             analysisData := Some generateMockData, isAnalyzing := False\<rparr>"
  using assms
  by (simp add: analyzeAudio_def analyzeAudio_settle_def analyzeAudio_begin_def Let_def)

text \<open>
  Claim C6, as amended. While the request is open the application is pending
  (\<^verbatim>\<open>isAnalyzing\<close>). When the run fails, it ends in one terminal state: the error is
  shown as one alert message, a string built from the error; the analysis is set to the
  substitute data of \<^verbatim>\<open>generateMockData\<close>, whose four series have \<open>2000\<close> entries
  each; and \<^verbatim>\<open>isAnalyzing\<close> is false again.
\<close>

theorem failed_analysis_falls_back_to_mock:
  assumes "\<forall>data. reply \<noteq> Ok data"
  shows "isAnalyzing (analyzeAudio_begin s) \<and>
         (\<exists>error. analyze_try reply (analyzeAudio_begin s) = Throw error \<and>
            analyzeAudio reply s =
              s\<lparr>alerts := alerts s @
                   [''Failed to analyze audio: '' @ error_toString error @
                    ''. Make sure the backend is running (uvicorn backend:app --reload)''],
                analysisData := Some generateMockData, isAnalyzing := False\<rparr>) \<and>
         length (times_list generateMockData) = 2000 \<and>
         length (pitchDeviation generateMockData) = 2000 \<and>
         length (amplitudeDeviation generateMockData) = 2000 \<and>
         length (amplitude generateMockData) = 2000"
proof -
  from analyze_try_fails [OF assms] obtain error
    where e: "analyze_try reply (analyzeAudio_begin s) = Throw error" by blast
  from e analyzeAudio_failure [OF e] generateMockData_lengths show ?thesis
    by (auto simp: analyzeAudio_begin_def)
qed

theorem failed_analysis_falls_back_to_mock_witness:
  "analyzeAudio (Rejected (JsError ''TypeError'' ''Failed to fetch'')) initial_state =
     initial_state\<lparr>alerts :=
        [''Failed to analyze audio: TypeError: Failed to fetch. Make sure the backend is running (uvicorn backend:app --reload)''],
       analysisData := Some generateMockData, isAnalyzing := False\<rparr>"
  using failed_analysis_falls_back_to_mock
          [of "Rejected (JsError ''TypeError'' ''Failed to fetch'')" initial_state]
  by (simp add: analyze_try_def error_toString_def initial_state_def)

text \<open>
  The claim as the specification states it, that a failed run produces no result arrays,
  not even substitute ones, is false: after a response that is not \<^verbatim>\<open>ok\<close> the analysis
  of the application is the mock data, with series of \<open>2000\<close> entries, and the error
  has become the text of an alert.
\<close>

theorem failed_analysis_counterexample:
  "analysisData (analyzeAudio (NotOk None) initial_state) = Some generateMockData \<and>
   analysisData (analyzeAudio (NotOk None) initial_state) \<noteq> None \<and>
   length (times_list generateMockData) = 2000 \<and>
   length (pitchDeviation generateMockData) = 2000 \<and>
   alerts (analyzeAudio (NotOk None) initial_state) =
     [''Failed to analyze audio: Error: Analysis failed. Make sure the backend is running (uvicorn backend:app --reload)'']"
  by (simp add: analyzeAudio_def analyzeAudio_settle_def analyzeAudio_begin_def Let_def
      analyze_try_def error_toString_def initial_state_def generateMockData_lengths)

end
